theory Spec2Isabelle
  imports Complex_Main "HOL-Library.Char_ord" "HOL-Library.List_Lexorder" "HOL-Library.Option_ord"
begin

section \<open>Strings\<close>

text \<open>
  The string operations of the host language that the database module uses:
  \<open>String.prototype.includes\<close>, \<open>endsWith\<close>, \<open>replace\<close> with a string pattern (which
  replaces the first occurrence only) and \<open>Array.prototype.join\<close>.
\<close>

definition startsWith :: "string \<Rightarrow> string \<Rightarrow> bool" where
  "startsWith pat s = (take (length pat) s = pat)"

definition endsWith :: "string \<Rightarrow> string \<Rightarrow> bool" where
  "endsWith suf s = (length suf \<le> length s \<and> drop (length s - length suf) s = suf)"

fun includesStr :: "string \<Rightarrow> string \<Rightarrow> bool" where
  "includesStr pat [] = (pat = [])"
| "includesStr pat (c # cs) = (startsWith pat (c # cs) \<or> includesStr pat cs)"

fun replaceFirst :: "string \<Rightarrow> string \<Rightarrow> string \<Rightarrow> string" where
  "replaceFirst pat rep [] = (if pat = [] then rep else [])"
| "replaceFirst pat rep (c # cs) =
     (if startsWith pat (c # cs) then rep @ drop (length pat) (c # cs)
      else c # replaceFirst pat rep cs)"

fun joinWith :: "string \<Rightarrow> string list \<Rightarrow> string" where
  "joinWith sep [] = []"
| "joinWith sep [x] = x"
| "joinWith sep (x # y # ys) = x @ sep @ joinWith sep (y # ys)"

function toDecimal :: "nat \<Rightarrow> string" where
  "toDecimal n =
     (if n < 10 then [''0123456789'' ! n]
      else toDecimal (n div 10) @ [''0123456789'' ! (n mod 10)])"
  by pat_completeness auto
termination
  by (relation "measure id") auto

declare toDecimal.simps [simp del]

section \<open>The stored dataset\<close>

text \<open>
  One SQLite database per session, with the three tables of \<open>createDatabase\<close>:
  \<open>meta(name, platform, type, imported_at)\<close>,
  \<open>member(id PRIMARY KEY AUTOINCREMENT, platform_id UNIQUE, name)\<close> and
  \<open>message(id PRIMARY KEY AUTOINCREMENT, sender_id REFERENCES member(id), ts, type, content)\<close>.
  A table is the list of its rows in insertion order.
\<close>

record DbMeta =
  meta_name :: string
  meta_platform :: string
  meta_type :: string
  imported_at :: int

record MemberRow =
  m_id :: nat
  m_platform_id :: string
  m_name :: string

record MessageRow =
  msg_id :: nat
  msg_sender_id :: nat
  msg_ts :: int
  msg_type :: int
  msg_content :: "string option"

record database =
  tbl_meta :: "DbMeta list"
  tbl_member :: "MemberRow list"
  tbl_message :: "MessageRow list"

definition emptyTables :: database where
  "emptyTables = \<lparr>tbl_meta = [], tbl_member = [], tbl_message = []\<rparr>"

text \<open>The reserved display name of the system sender, as UTF-8 bytes.\<close>

definition systemName :: string where
  "systemName =
     [CHR 0xE7, CHR 0xB3, CHR 0xBB, CHR 0xE7, CHR 0xBB, CHR 0x9F,
      CHR 0xE6, CHR 0xB6, CHR 0x88, CHR 0xE6, CHR 0x81, CHR 0xAF]"

text \<open>
  The key constraints of the schema: \<open>member.id\<close> is the primary key and
  \<open>member.platform_id\<close> is UNIQUE; \<open>message.sender_id\<close> references \<open>member.id\<close>.
\<close>

definition memberKeys :: "database \<Rightarrow> bool" where
  "memberKeys db =
     (distinct (map m_id (tbl_member db)) \<and> distinct (map m_platform_id (tbl_member db)))"

definition senderResolved :: "database \<Rightarrow> bool" where
  "senderResolved db =
     list_all (\<lambda>r. msg_sender_id r \<in> set (map m_id (tbl_member db))) (tbl_message db)"

datatype error = SqliteError | TypeError | RangeError | FsError

section \<open>The storage directory\<close>

text \<open>
  The directory \<open>DB_DIR\<close> as an association list from file name to file; the directory
  itself is taken to exist, and a path is the name of a file in it. A file is a
  session database, an SQLite file without the tables, or anything else (a foreign or
  corrupt file, a write-ahead log, a shared-memory file). \<open>locked\<close> says that
  \<open>fs.unlinkSync\<close> on the file throws.
\<close>

datatype fbody = ChatDb database | EmptyDb | Foreign

record fnode =
  body :: fbody
  locked :: bool

type_synonym fsys = "(string \<times> fnode) list"

definition existsSync :: "fsys \<Rightarrow> string \<Rightarrow> bool" where
  "existsSync fs p = (map_of fs p \<noteq> None)"

definition readdirSync :: "fsys \<Rightarrow> string list" where
  "readdirSync fs = map fst fs"

definition unlinkSync :: "fsys \<Rightarrow> string \<Rightarrow> error + fsys" where
  "unlinkSync fs p =
     (case map_of fs p of
        None \<Rightarrow> Inl FsError
      | Some n \<Rightarrow> if locked n then Inl FsError else Inr (filter (\<lambda>e. fst e \<noteq> p) fs))"

definition writeFile :: "fsys \<Rightarrow> string \<Rightarrow> fbody \<Rightarrow> fsys" where
  "writeFile fs p b =
     (case map_of fs p of
        None \<Rightarrow> fs @ [(p, \<lparr>body = b, locked = False\<rparr>)]
      | Some n \<Rightarrow> map (\<lambda>e. if fst e = p then (p, (snd e)\<lparr>body := b\<rparr>) else e) fs)"

definition getDbPath :: "string \<Rightarrow> string" where
  "getDbPath sessionId = sessionId @ ''.db''"

text \<open>
  \<open>openDatabase\<close>: no file gives \<open>null\<close>; otherwise the file is opened read-only and the
  journal-mode pragma is run, which throws on a file that is not a database.
\<close>

definition openDatabase :: "fsys \<Rightarrow> string \<Rightarrow> error + fbody option" where
  "openDatabase fs sessionId =
     (case map_of fs (getDbPath sessionId) of
        None \<Rightarrow> Inr None
      | Some n \<Rightarrow> (case body n of Foreign \<Rightarrow> Inl SqliteError | b \<Rightarrow> Inr (Some b)))"

text \<open>Preparing a statement on a connection: the tables must exist.\<close>

definition tablesOf :: "fbody \<Rightarrow> error + database" where
  "tablesOf b = (case b of ChatDb db \<Rightarrow> Inr db | _ \<Rightarrow> Inl SqliteError)"

section \<open>The WHERE clauses built as text\<close>

record TimeFilter =
  startTs :: "int option"
  endTs :: "int option"

text \<open>\<open>filter?.startTs\<close> and \<open>filter?.endTs\<close>: \<open>undefined\<close> when there is no filter.\<close>

definition startOf :: "TimeFilter option \<Rightarrow> int option" where
  "startOf f = (case f of None \<Rightarrow> None | Some t \<Rightarrow> startTs t)"

definition endOf :: "TimeFilter option \<Rightarrow> int option" where
  "endOf f = (case f of None \<Rightarrow> None | Some t \<Rightarrow> endTs t)"

definition buildTimeFilter :: "TimeFilter option \<Rightarrow> string \<times> int list" where
  "buildTimeFilter f =
     (let conditions =
            (if startOf f \<noteq> None then [''ts >= ?''] else []) @
            (if endOf f \<noteq> None then [''ts <= ?''] else []);
          params =
            (case startOf f of None \<Rightarrow> [] | Some s \<Rightarrow> [s]) @
            (case endOf f of None \<Rightarrow> [] | Some e \<Rightarrow> [e])
      in (if length conditions > 0 then '' WHERE '' @ joinWith '' AND '' conditions else [],
          params))"

definition systemFilter :: string where
  "systemFilter = ''m.name != '' @ [CHR 0x27] @ systemName @ [CHR 0x27]"

definition buildSystemMessageFilter :: "string \<Rightarrow> string" where
  "buildSystemMessageFilter existingClause =
     (if includesStr ''WHERE'' existingClause then existingClause @ '' AND '' @ systemFilter
      else '' WHERE '' @ systemFilter)"

subsection \<open>What the storage engine makes of such a clause\<close>

text \<open>
  The engine's reading of the clause texts: tokens separated by blanks, a conjunction of
  comparisons joined by \<open>AND\<close>. The comparisons are \<open>ts >= ?\<close>, \<open>ts <= ?\<close> (the column
  \<open>ts\<close> of \<open>message\<close>, the value bound to the next positional parameter) and
  \<open>m.name != '...'\<close> (the column \<open>name\<close> of the member row, a string literal). Any other
  text is a syntax error when the statement is prepared, and binding a number of values
  different from the number of \<open>?\<close> is a range error.
\<close>

fun splitBlanks :: "string \<Rightarrow> string list" where
  "splitBlanks [] = [[]]"
| "splitBlanks (c # cs) =
     (if c = CHR '' '' then [] # splitBlanks cs
      else (case splitBlanks cs of [] \<Rightarrow> [[c]] | w # ws \<Rightarrow> (c # w) # ws))"

definition sqlTokens :: "string \<Rightarrow> string list" where
  "sqlTokens s = filter (\<lambda>w. w \<noteq> []) (splitBlanks s)"

datatype cond = TsGe | TsLe | NameNe string

definition parseLiteral :: "string \<Rightarrow> string option" where
  "parseLiteral w =
     (if 2 \<le> length w \<and> hd w = CHR 0x27 \<and> last w = CHR 0x27
         \<and> CHR 0x27 \<notin> set (butlast (tl w))
      then Some (butlast (tl w)) else None)"

definition parseComparison :: "string \<Rightarrow> string \<Rightarrow> string \<Rightarrow> cond option" where
  "parseComparison a op b =
     (if a = ''ts'' \<and> op = ''>='' \<and> b = ''?'' then Some TsGe
      else if a = ''ts'' \<and> op = ''<='' \<and> b = ''?'' then Some TsLe
      else if a = ''m.name'' \<and> op = ''!='' then map_option NameNe (parseLiteral b)
      else None)"

fun parseConj :: "string list \<Rightarrow> cond list option" where
  "parseConj (a # op # b # rest) =
     (case parseComparison a op b of
        None \<Rightarrow> None
      | Some c \<Rightarrow>
          (case rest of
             [] \<Rightarrow> Some [c]
           | k # rest' \<Rightarrow>
               if k = ''AND'' then map_option ((#) c) (parseConj rest') else None))"
| "parseConj _ = None"

text \<open>An optional \<open>WHERE\<close> clause, and the rest of an \<open>ON\<close> condition after its first comparison.\<close>

definition parseWhere :: "string list \<Rightarrow> cond list option" where
  "parseWhere toks =
     (case toks of [] \<Rightarrow> Some [] | k # rest \<Rightarrow> if k = ''WHERE'' then parseConj rest else None)"

definition parseOnTail :: "string list \<Rightarrow> cond list option" where
  "parseOnTail toks =
     (case toks of [] \<Rightarrow> Some [] | k # rest \<Rightarrow> if k = ''AND'' then parseConj rest else None)"

fun placeholders :: "cond list \<Rightarrow> nat" where
  "placeholders [] = 0"
| "placeholders (NameNe s # cs) = placeholders cs"
| "placeholders (c # cs) = Suc (placeholders cs)"

fun holds :: "cond list \<Rightarrow> int list \<Rightarrow> int \<Rightarrow> string \<Rightarrow> bool" where
  "holds [] ps t nm = True"
| "holds (NameNe s # cs) ps t nm = (nm \<noteq> s \<and> holds cs ps t nm)"
| "holds (TsGe # cs) (p # ps) t nm = (t \<ge> p \<and> holds cs ps t nm)"
| "holds (TsLe # cs) (p # ps) t nm = (t \<le> p \<and> holds cs ps t nm)"
| "holds (c # cs) [] t nm = False"

definition bindParams :: "cond list option \<Rightarrow> int list \<Rightarrow> error + (int \<Rightarrow> string \<Rightarrow> bool)" where
  "bindParams parsed params =
     (case parsed of
        None \<Rightarrow> Inl SqliteError
      | Some cs \<Rightarrow> if placeholders cs = length params then Inr (holds cs params)
                  else Inl RangeError)"

definition compileWhere :: "string \<Rightarrow> int list \<Rightarrow> error + (int \<Rightarrow> string \<Rightarrow> bool)" where
  "compileWhere clause params = bindParams (parseWhere (sqlTokens clause)) params"

definition compileOnTail :: "string \<Rightarrow> int list \<Rightarrow> error + (int \<Rightarrow> string \<Rightarrow> bool)" where
  "compileOnTail clause params = bindParams (parseOnTail (sqlTokens clause)) params"

section \<open>Analytics queries\<close>

text \<open>\<open>FROM message msg JOIN member m ON msg.sender_id = m.id\<close>.\<close>

definition joinRows :: "database \<Rightarrow> (MessageRow \<times> MemberRow) list" where
  "joinRows db =
     concat (map (\<lambda>msg. map (\<lambda>m. (msg, m))
                           (filter (\<lambda>m. msg_sender_id msg = m_id m) (tbl_member db)))
                 (tbl_message db))"

definition selectJoin :: "(int \<Rightarrow> string \<Rightarrow> bool) \<Rightarrow> database \<Rightarrow> (MessageRow \<times> MemberRow) list" where
  "selectJoin p db = filter (\<lambda>r. p (msg_ts (fst r)) (m_name (snd r))) (joinRows db)"

text \<open>\<open>SELECT key, COUNT(*) ... GROUP BY key ORDER BY key\<close>: NULL keys sort first.\<close>

definition groupCount :: "('k::linorder) list \<Rightarrow> ('k \<times> nat) list" where
  "groupCount ks = map (\<lambda>k. (k, count_list ks k)) (sort (remdups ks))"

record MemberActivity =
  memberId :: nat
  a_platformId :: string
  a_name :: string
  messageCount :: nat
  percentage :: rat

text \<open>
  \<open>Math.round((messageCount / totalMessages) * 10000) / 100\<close>, with the double-precision
  arithmetic read as exact arithmetic on rationals; \<open>Math.round\<close> rounds halves up, as
  \<open>round\<close> does.
\<close>

definition percentOf :: "nat \<Rightarrow> nat \<Rightarrow> rat" where
  "percentOf c totalMessages =
     (if totalMessages > 0
      then of_int (round ((of_nat c / of_nat totalMessages) * (10000::rat))) / 100 else 0)"

text \<open>
  \<open>getMemberActivity\<close>. In the ranking query \<open>member.id\<close> is the primary key, so each
  group of \<open>GROUP BY m.id\<close> is one member row, and \<open>COUNT(msg.id)\<close> counts the messages
  that the \<open>LEFT JOIN\<close> condition pairs with it; \<open>ORDER BY messageCount DESC\<close> is taken
  as the stable sort.
\<close>

definition getMemberActivity ::
  "fsys \<Rightarrow> string \<Rightarrow> TimeFilter option \<Rightarrow> error + MemberActivity list" where
  "getMemberActivity fs sessionId f =
     (case openDatabase fs sessionId of
        Inl e \<Rightarrow> Inl e
      | Inr None \<Rightarrow> Inr []
      | Inr (Some conn) \<Rightarrow>
          (let (clause, params) = buildTimeFilter f;
               msgFilterBase = (if clause \<noteq> [] then replaceFirst ''WHERE'' ''AND'' clause else []);
               msgFilterWithSystem = msgFilterBase @ '' AND '' @ systemFilter;
               totalClauseWithSystem = buildSystemMessageFilter clause
           in case tablesOf conn of
                Inl e \<Rightarrow> Inl e
              | Inr db \<Rightarrow>
                  (case compileWhere totalClauseWithSystem params of
                     Inl e \<Rightarrow> Inl e
                   | Inr pTotal \<Rightarrow>
                       (let totalMessages = length (selectJoin pTotal db)
                        in case compileOnTail msgFilterWithSystem params of
                             Inl e \<Rightarrow> Inl e
                           | Inr pOn \<Rightarrow>
                               (let counted = map (\<lambda>m. (m, length (filter (\<lambda>msg.
                                        m_id m = msg_sender_id msg \<and> pOn (msg_ts msg) (m_name m))
                                        (tbl_message db))))
                                      (filter (\<lambda>m. m_name m \<noteq> systemName) (tbl_member db));
                                    having = filter (\<lambda>r. snd r > 0) counted;
                                    rows = sort_key (\<lambda>r. - int (snd r)) having
                                in Inr (map (\<lambda>row.
                                     \<lparr>memberId = m_id (fst row),
                                      a_platformId = m_platform_id (fst row),
                                      a_name = m_name (fst row),
                                      messageCount = snd row,
                                      percentage = percentOf (snd row) totalMessages\<rparr>) rows))))))"

record HourlyActivity =
  hour :: nat
  h_messageCount :: nat

text \<open>
  \<open>getHourlyActivity\<close>. \<open>localHour\<close> is the engine's
  \<open>CAST(strftime('%H', ts, 'unixepoch', 'localtime') AS INTEGER)\<close> in the time zone of the
  host: NULL for a timestamp outside the engine's calendar.
\<close>

definition getHourlyActivity ::
  "(int \<Rightarrow> nat option) \<Rightarrow> fsys \<Rightarrow> string \<Rightarrow> TimeFilter option \<Rightarrow> error + HourlyActivity list" where
  "getHourlyActivity localHour fs sessionId f =
     (case openDatabase fs sessionId of
        Inl e \<Rightarrow> Inl e
      | Inr None \<Rightarrow> Inr []
      | Inr (Some conn) \<Rightarrow>
          (let (clause, params) = buildTimeFilter f;
               clauseWithSystem = buildSystemMessageFilter clause
           in case tablesOf conn of
                Inl e \<Rightarrow> Inl e
              | Inr db \<Rightarrow>
                  (case compileWhere clauseWithSystem params of
                     Inl e \<Rightarrow> Inl e
                   | Inr p \<Rightarrow>
                       (let rows = groupCount (map (\<lambda>r. localHour (msg_ts (fst r))) (selectJoin p db))
                        in Inr (map (\<lambda>h.
                             \<lparr>hour = h,
                              h_messageCount =
                                (case find (\<lambda>r. fst r = Some h) rows of
                                   Some found \<Rightarrow> snd found
                                 | None \<Rightarrow> 0)\<rparr>) [0..<24])))))"





text \<open>\<open>SELECT MIN(ts), MAX(ts) FROM message\<close>: NULL on an empty table.\<close>

definition sqlMin :: "int list \<Rightarrow> int option" where
  "sqlMin xs = (case xs of [] \<Rightarrow> None | x # ys \<Rightarrow> Some (fold min ys x))"

definition sqlMax :: "int list \<Rightarrow> int option" where
  "sqlMax xs = (case xs of [] \<Rightarrow> None | x # ys \<Rightarrow> Some (fold max ys x))"

definition getTimeRange :: "fsys \<Rightarrow> string \<Rightarrow> error + (int \<times> int) option" where
  "getTimeRange fs sessionId =
     (case openDatabase fs sessionId of
        Inl e \<Rightarrow> Inl e
      | Inr None \<Rightarrow> Inr None
      | Inr (Some conn) \<Rightarrow>
          (case tablesOf conn of
             Inl e \<Rightarrow> Inl e
           | Inr db \<Rightarrow>
               (case (sqlMin (map msg_ts (tbl_message db)), sqlMax (map msg_ts (tbl_message db))) of
                  (Some s, Some e) \<Rightarrow> Inr (Some (s, e))
                | _ \<Rightarrow> Inr None)))"

section \<open>Import\<close>

text \<open>
  The parse result handed to the importer: session metadata, the member list and the
  message list, whose senders are still platform ids.
\<close>

record SessionMeta =
  name :: string
  platform :: string
  ctype :: string

record ParsedMember =
  platformId :: string
  pname :: string

record ParsedMessage =
  senderPlatformId :: string
  timestamp :: int
  mtype :: int
  content :: "string option"

record ParseResult =
  meta :: SessionMeta
  members :: "ParsedMember list"
  messages :: "ParsedMessage list"

text \<open>
  What the importer reads from its host: the clock (\<open>Date.now()\<close>, in milliseconds) when
  the session id is generated and when the meta row is written, the random part of the
  id, and which statements of the write transaction hit a storage fault (statement
  \<open>n\<close> of the transaction throws when \<open>fault n\<close>).
\<close>

record host =
  idClock :: nat
  randomPart :: string
  metaClock :: nat
  fault :: "nat \<Rightarrow> bool"

definition generateSessionId :: "host \<Rightarrow> string" where
  "generateSessionId h = ''chat_'' @ toDecimal (idClock h) @ ''_'' @ randomPart h"

text \<open>
  \<open>createDatabase\<close>: \<open>new Database(dbPath)\<close> creates the file when it is missing, and
  the tables are created \<open>IF NOT EXISTS\<close>.
\<close>

definition createDatabase :: "fsys \<Rightarrow> string \<Rightarrow> error + (fsys \<times> database)" where
  "createDatabase fs sessionId =
     (let dbPath = getDbPath sessionId
      in case map_of fs dbPath of
           None \<Rightarrow> Inr (writeFile fs dbPath (ChatDb emptyTables), emptyTables)
         | Some n \<Rightarrow>
             (case body n of
                Foreign \<Rightarrow> Inl SqliteError
              | EmptyDb \<Rightarrow> Inr (writeFile fs dbPath (ChatDb emptyTables), emptyTables)
              | ChatDb db \<Rightarrow> Inr (fs, db)))"

subsection \<open>The statements of the write transaction\<close>

text \<open>AUTOINCREMENT: the next id is one more than the largest id of the table.\<close>

definition nextId :: "nat list \<Rightarrow> nat" where
  "nextId ids = Suc (fold max ids 0)"

definition insertMeta :: "string \<Rightarrow> string \<Rightarrow> string \<Rightarrow> int \<Rightarrow> database \<Rightarrow> error + database" where
  "insertMeta n p ty importedTime db =
     Inr (db\<lparr>tbl_meta := tbl_meta db @
            [\<lparr>meta_name = n, meta_platform = p, meta_type = ty, imported_at = importedTime\<rparr>]\<rparr>)"

text \<open>\<open>INSERT OR IGNORE\<close>: a row that would break UNIQUE(platform_id) is skipped.\<close>

definition insertMember :: "string \<Rightarrow> string \<Rightarrow> database \<Rightarrow> error + database" where
  "insertMember pid n db =
     (if pid \<in> set (map m_platform_id (tbl_member db)) then Inr db
      else Inr (db\<lparr>tbl_member := tbl_member db @
                  [\<lparr>m_id = nextId (map m_id (tbl_member db)), m_platform_id = pid, m_name = n\<rparr>]\<rparr>))"

definition updateMemberName :: "string \<Rightarrow> string \<Rightarrow> database \<Rightarrow> error + database" where
  "updateMemberName n pid db =
     Inr (db\<lparr>tbl_member :=
            map (\<lambda>r. if m_platform_id r = pid then r\<lparr>m_name := n\<rparr> else r) (tbl_member db)\<rparr>)"

definition getMemberId :: "database \<Rightarrow> string \<Rightarrow> nat option" where
  "getMemberId db pid =
     (case filter (\<lambda>r. m_platform_id r = pid) (tbl_member db) of
        [] \<Rightarrow> None
      | r # _ \<Rightarrow> Some (m_id r))"

text \<open>The foreign key of \<open>message.sender_id\<close> is checked by the engine.\<close>

definition insertMessage ::
  "nat \<Rightarrow> int \<Rightarrow> int \<Rightarrow> string option \<Rightarrow> database \<Rightarrow> error + database" where
  "insertMessage sender t ty c db =
     (if sender \<in> set (map m_id (tbl_member db))
      then Inr (db\<lparr>tbl_message := tbl_message db @
                  [\<lparr>msg_id = nextId (map msg_id (tbl_message db)), msg_sender_id = sender,
                    msg_ts = t, msg_type = ty, msg_content = c\<rparr>]\<rparr>)
      else Inl SqliteError)"

text \<open>
  The transaction in progress: the tables as the transaction sees them, and the number
  of statements it has executed. A statement throws when the storage faults at it.
\<close>

record txn =
  tdb :: database
  stmts :: nat

definition run :: "(nat \<Rightarrow> bool) \<Rightarrow> (database \<Rightarrow> error + database) \<Rightarrow> txn \<Rightarrow> error + txn" where
  "run flt stmt t =
     (if flt (stmts t) then Inl SqliteError
      else case stmt (tdb t) of
             Inl e \<Rightarrow> Inl e
           | Inr db' \<Rightarrow> Inr \<lparr>tdb = db', stmts = Suc (stmts t)\<rparr>)"

fun importMembers ::
  "(nat \<Rightarrow> bool) \<Rightarrow> ParsedMember list \<Rightarrow> (string \<rightharpoonup> nat) \<Rightarrow> txn
     \<Rightarrow> error + ((string \<rightharpoonup> nat) \<times> txn)" where
  "importMembers flt [] memberIdMap t = Inr (memberIdMap, t)"
| "importMembers flt (member # rest) memberIdMap t =
     (case run flt (insertMember (platformId member) (pname member)) t of
        Inl e \<Rightarrow> Inl e
      | Inr t1 \<Rightarrow>
          (case run flt (updateMemberName (pname member) (platformId member)) t1 of
             Inl e \<Rightarrow> Inl e
           | Inr t2 \<Rightarrow>
               (case run flt Inr t2 of
                  Inl e \<Rightarrow> Inl e
                | Inr t3 \<Rightarrow>
                    (case getMemberId (tdb t3) (platformId member) of
                       None \<Rightarrow> Inl TypeError
                     | Some i \<Rightarrow>
                         importMembers flt rest (memberIdMap(platformId member \<mapsto> i)) t3))))"

fun importMessages ::
  "(nat \<Rightarrow> bool) \<Rightarrow> (string \<rightharpoonup> nat) \<Rightarrow> ParsedMessage list \<Rightarrow> txn \<Rightarrow> error + txn" where
  "importMessages flt memberIdMap [] t = Inr t"
| "importMessages flt memberIdMap (msg # rest) t =
     (case memberIdMap (senderPlatformId msg) of
        None \<Rightarrow> importMessages flt memberIdMap rest t
      | Some senderId \<Rightarrow>
          (case run flt (insertMessage senderId (timestamp msg) (mtype msg) (content msg)) t of
             Inl e \<Rightarrow> Inl e
           | Inr t1 \<Rightarrow> importMessages flt memberIdMap rest t1))"

text \<open>
  The body of \<open>db.transaction\<close>, then the commit. An exception anywhere rolls the
  transaction back: no table of the file changes.
\<close>

definition importTransaction :: "host \<Rightarrow> ParseResult \<Rightarrow> database \<Rightarrow> error + database" where
  "importTransaction h parseResult db =
     (case run (fault h)
             (insertMeta (name (meta parseResult)) (platform (meta parseResult))
                (ctype (meta parseResult)) (int (metaClock h div 1000)))
             \<lparr>tdb = db, stmts = 0\<rparr> of
        Inl e \<Rightarrow> Inl e
      | Inr t1 \<Rightarrow>
          (case importMembers (fault h) (members parseResult) Map.empty t1 of
             Inl e \<Rightarrow> Inl e
           | Inr (memberIdMap, t2) \<Rightarrow>
               (case importMessages (fault h) memberIdMap (messages parseResult) t2 of
                  Inl e \<Rightarrow> Inl e
                | Inr t3 \<Rightarrow>
                    (case run (fault h) Inr t3 of
                       Inl e \<Rightarrow> Inl e
                     | Inr t4 \<Rightarrow> Inr (tdb t4)))))"

definition importData :: "host \<Rightarrow> ParseResult \<Rightarrow> fsys \<Rightarrow> fsys \<times> (error + string)" where
  "importData h parseResult fs =
     (let sessionId = generateSessionId h
      in case createDatabase fs sessionId of
           Inl e \<Rightarrow> (fs, Inl e)
         | Inr (fs1, db) \<Rightarrow>
             (case importTransaction h parseResult db of
                Inl e \<Rightarrow> (fs1, Inl e)
              | Inr db' \<Rightarrow> (writeFile fs1 (getDbPath sessionId) (ChatDb db'), Inr sessionId)))"

section \<open>Session catalog\<close>

record AnalysisSession =
  s_id :: string
  s_name :: string
  s_platform :: string
  s_type :: string
  importedAt :: int
  s_messageCount :: nat
  s_memberCount :: nat
  dbPath :: string

text \<open>
  The per-dataset read that \<open>getSession\<close> and \<open>getAllSessions\<close> both make: the first
  meta row, and the message and member counts without the system sender. No meta row
  gives no session.
\<close>

definition readSession :: "string \<Rightarrow> database \<Rightarrow> AnalysisSession option" where
  "readSession sessionId db =
     (case tbl_meta db of
        [] \<Rightarrow> None
      | m # _ \<Rightarrow>
          Some \<lparr>s_id = sessionId, s_name = meta_name m, s_platform = meta_platform m,
                s_type = meta_type m, importedAt = imported_at m,
                s_messageCount = length (filter (\<lambda>r. m_name (snd r) \<noteq> systemName) (joinRows db)),
                s_memberCount = length (filter (\<lambda>r. m_name r \<noteq> systemName) (tbl_member db)),
                dbPath = getDbPath sessionId\<rparr>)"

definition getSession :: "fsys \<Rightarrow> string \<Rightarrow> error + AnalysisSession option" where
  "getSession fs sessionId =
     (case openDatabase fs sessionId of
        Inl e \<Rightarrow> Inl e
      | Inr None \<Rightarrow> Inr None
      | Inr (Some conn) \<Rightarrow>
          (case tablesOf conn of
             Inl e \<Rightarrow> Inl e
           | Inr db \<Rightarrow> Inr (readSession sessionId db)))"

text \<open>
  One turn of the loop of \<open>getAllSessions\<close>. The file is opened read-write, which
  creates an empty database when the path does not exist; an exception while reading
  is caught and the file skipped.
\<close>

definition scanFile ::
  "string \<Rightarrow> fsys \<times> AnalysisSession list \<Rightarrow> fsys \<times> AnalysisSession list" where
  "scanFile file st =
     (let fs = fst st; sessions = snd st;
          sessionId = replaceFirst ''.db'' [] file;
          dbPath = getDbPath sessionId
      in case map_of fs dbPath of
           None \<Rightarrow> (writeFile fs dbPath EmptyDb, sessions)
         | Some n \<Rightarrow>
             (case body n of
                ChatDb db \<Rightarrow>
                  (case readSession sessionId db of
                     None \<Rightarrow> (fs, sessions)
                   | Some s \<Rightarrow> (fs, sessions @ [s]))
              | _ \<Rightarrow> (fs, sessions)))"

definition getAllSessions :: "fsys \<Rightarrow> fsys \<times> AnalysisSession list" where
  "getAllSessions fs =
     (let files = filter (endsWith ''.db'') (readdirSync fs);
          st = fold scanFile files (fs, [])
      in (fst st, sort_key (\<lambda>s. - importedAt s) (snd st)))"

definition deleteSession :: "fsys \<Rightarrow> string \<Rightarrow> fsys \<times> bool" where
  "deleteSession fs sessionId =
     (let dbPath = getDbPath sessionId;
          walPath = dbPath @ ''-wal'';
          shmPath = dbPath @ ''-shm''
      in case (if existsSync fs dbPath then unlinkSync fs dbPath else Inr fs) of
           Inl e \<Rightarrow> (fs, False)
         | Inr fs1 \<Rightarrow>
             (case (if existsSync fs1 walPath then unlinkSync fs1 walPath else Inr fs1) of
                Inl e \<Rightarrow> (fs1, False)
              | Inr fs2 \<Rightarrow>
                  (case (if existsSync fs2 shmPath then unlinkSync fs2 shmPath else Inr fs2) of
                     Inl e \<Rightarrow> (fs2, False)
                   | Inr fs3 \<Rightarrow> (fs3, True))))"

section \<open>The notions the properties are stated with\<close>

text \<open>
  The time filter as a predicate on timestamps: both bounds inclusive, a missing bound
  (or no filter) no constraint.
\<close>

definition inBounds :: "TimeFilter option \<Rightarrow> int \<Rightarrow> bool" where
  "inBounds f t =
     ((case startOf f of None \<Rightarrow> True | Some s \<Rightarrow> s \<le> t) \<and>
      (case endOf f of None \<Rightarrow> True | Some e \<Rightarrow> t \<le> e))"

text \<open>A message whose sender is a member row with a name other than the system name.\<close>

definition nonSystemSender :: "database \<Rightarrow> MessageRow \<Rightarrow> bool" where
  "nonSystemSender db msg =
     list_ex (\<lambda>m. m_id m = msg_sender_id msg \<and> m_name m \<noteq> systemName) (tbl_member db)"

text \<open>The non-system messages under a filter, in table order.\<close>

definition matching :: "database \<Rightarrow> TimeFilter option \<Rightarrow> MessageRow list" where
  "matching db f =
     filter (\<lambda>msg. inBounds f (msg_ts msg) \<and> nonSystemSender db msg) (tbl_message db)"

definition totalNonSystemMessages :: "database \<Rightarrow> TimeFilter option \<Rightarrow> nat" where
  "totalNonSystemMessages db f = length (matching db f)"

text \<open>The number of messages of one member inside the filter bounds.\<close>

definition memberMessageCount :: "database \<Rightarrow> TimeFilter option \<Rightarrow> MemberRow \<Rightarrow> nat" where
  "memberMessageCount db f m =
     length (filter (\<lambda>msg. msg_sender_id msg = m_id m \<and> inBounds f (msg_ts msg)) (tbl_message db))"






text \<open>The platform id of the member row that a stored message's sender id names.\<close>

definition senderPlatformOf :: "database \<Rightarrow> MessageRow \<Rightarrow> string option" where
  "senderPlatformOf db r =
     map_option m_platform_id (find (\<lambda>m. m_id m = msg_sender_id r) (tbl_member db))"

text \<open>A removal attempt on the path throws: the file exists and cannot be unlinked.\<close>

definition unlinkThrows :: "fsys \<Rightarrow> string \<Rightarrow> bool" where
  "unlinkThrows fs p = (case map_of fs p of None \<Rightarrow> False | Some n \<Rightarrow> locked n)"

definition withoutFiles :: "fsys \<Rightarrow> string list \<Rightarrow> fsys" where
  "withoutFiles fs ps = filter (\<lambda>e. fst e \<notin> set ps) fs"

section \<open>Notions used in the proofs\<close>

text \<open>A session record that is backed by a database file with a meta row.\<close>

definition listed :: "fsys \<Rightarrow> AnalysisSession \<Rightarrow> bool" where
  "listed fs s =
     (case map_of fs (getDbPath (s_id s)) of
        None \<Rightarrow> False
      | Some n \<Rightarrow> (case body n of ChatDb db \<Rightarrow> readSession (s_id s) db = Some s | _ \<Rightarrow> False))"

text \<open>
  The invariant of the catalog scan: the scan adds no session database to the directory,
  and every session collected so far is backed by a file of the directory it started from.
\<close>

definition scanInv :: "fsys \<Rightarrow> fsys \<times> AnalysisSession list \<Rightarrow> bool" where
  "scanInv fs0 st =
     ((\<forall>p n db. map_of (fst st) p = Some n \<and> body n = ChatDb db \<longrightarrow> map_of fs0 p = Some n)
      \<and> (\<forall>s\<in>set (snd st). listed fs0 s))"

text \<open>The member table after one turn of the member loop of the import.\<close>

definition memberStep :: "ParsedMember \<Rightarrow> MemberRow list \<Rightarrow> MemberRow list" where
  "memberStep pm tbl =
     map (\<lambda>r. if m_platform_id r = platformId pm then r\<lparr>m_name := pname pm\<rparr> else r)
       (if platformId pm \<in> set (map m_platform_id tbl) then tbl
        else tbl @ [\<lparr>m_id = nextId (map m_id tbl), m_platform_id = platformId pm, m_name = pname pm\<rparr>])"

definition tableKeys :: "MemberRow list \<Rightarrow> bool" where
  "tableKeys tbl = (distinct (map m_id tbl) \<and> distinct (map m_platform_id tbl))"

text \<open>Every entry of the id map names a row of the table with that platform id.\<close>

definition mapResolves :: "(string \<rightharpoonup> nat) \<Rightarrow> MemberRow list \<Rightarrow> bool" where
  "mapResolves idMap tbl =
     (\<forall>p i. idMap p = Some i \<longrightarrow> (\<exists>r\<in>set tbl. m_id r = i \<and> m_platform_id r = p))"

text \<open>What a stored message row carries besides its own id, and what the message loop stores.\<close>

definition rowData :: "MessageRow \<Rightarrow> nat \<times> int \<times> int \<times> string option" where
  "rowData r = (msg_sender_id r, msg_ts r, msg_type r, msg_content r)"

definition resolved ::
  "(string \<rightharpoonup> nat) \<Rightarrow> ParsedMessage list \<Rightarrow> (nat \<times> int \<times> int \<times> string option) list" where
  "resolved idMap msgs =
     List.map_filter (\<lambda>m. map_option (\<lambda>i. (i, timestamp m, mtype m, content m))
                            (idMap (senderPlatformId m))) msgs"

section \<open>A worked example\<close>

text \<open>
  A group chat with two people and the system sender. The parse result lists one sender
  twice, under an older and a newer name, and holds one message of a sender that is not in
  the member list. \<open>exampleDb\<close> is the dataset the import stores for it.
\<close>

definition exampleId :: string where
  "exampleId = ''chat_1700000000123_k3x9qz''"

definition exampleParse :: ParseResult where
  "exampleParse =
     \<lparr>meta = \<lparr>name = ''team'', platform = ''qq'', ctype = ''group''\<rparr>,
      members =
        [\<lparr>platformId = ''u1'', pname = ''Alice''\<rparr>,
         \<lparr>platformId = ''sys'', pname = systemName\<rparr>,
         \<lparr>platformId = ''u1'', pname = ''Alicia''\<rparr>,
         \<lparr>platformId = ''u2'', pname = ''Bob''\<rparr>],
      messages =
        [\<lparr>senderPlatformId = ''u1'', timestamp = 1700038800, mtype = 0, content = Some ''hi''\<rparr>,
         \<lparr>senderPlatformId = ''u9'', timestamp = 1700038830, mtype = 0, content = Some ''??''\<rparr>,
         \<lparr>senderPlatformId = ''sys'', timestamp = 1700038860, mtype = 6, content = None\<rparr>,
         \<lparr>senderPlatformId = ''u2'', timestamp = 1700056800, mtype = 1, content = None\<rparr>,
         \<lparr>senderPlatformId = ''u1'', timestamp = 1700056860, mtype = 0, content = Some ''ok''\<rparr>]\<rparr>"

definition exampleDb :: database where
  "exampleDb =
     \<lparr>tbl_meta = [\<lparr>meta_name = ''team'', meta_platform = ''qq'', meta_type = ''group'',
                   imported_at = 1700000000\<rparr>],
      tbl_member =
        [\<lparr>m_id = 1, m_platform_id = ''u1'', m_name = ''Alicia''\<rparr>,
         \<lparr>m_id = 2, m_platform_id = ''sys'', m_name = systemName\<rparr>,
         \<lparr>m_id = 3, m_platform_id = ''u2'', m_name = ''Bob''\<rparr>],
      tbl_message =
        [\<lparr>msg_id = 1, msg_sender_id = 1, msg_ts = 1700038800, msg_type = 0, msg_content = Some ''hi''\<rparr>,
         \<lparr>msg_id = 2, msg_sender_id = 2, msg_ts = 1700038860, msg_type = 6, msg_content = None\<rparr>,
         \<lparr>msg_id = 3, msg_sender_id = 3, msg_ts = 1700056800, msg_type = 1, msg_content = None\<rparr>,
         \<lparr>msg_id = 4, msg_sender_id = 1, msg_ts = 1700056860, msg_type = 0, msg_content = Some ''ok''\<rparr>]\<rparr>"

definition exampleNode :: fnode where
  "exampleNode = \<lparr>body = ChatDb exampleDb, locked = False\<rparr>"

definition exampleFs :: fsys where
  "exampleFs =
     [(''chat_1700000000123_k3x9qz.db'', exampleNode),
      (''chat_1700000000123_k3x9qz.db-wal'', \<lparr>body = Foreign, locked = False\<rparr>),
      (''chat_1700000000123_k3x9qz.db-shm'', \<lparr>body = Foreign, locked = False\<rparr>)]"

definition exampleFilter :: "TimeFilter option" where
  "exampleFilter = Some \<lparr>startTs = Some 1700038800, endTs = Some 1700056800\<rparr>"

definition neverFaults :: "nat \<Rightarrow> bool" where
  "neverFaults n = False"

definition faultsAtFifth :: "nat \<Rightarrow> bool" where
  "faultsAtFifth n = (n = 5)"

definition exampleHost :: host where
  "exampleHost =
     \<lparr>idClock = 1700000000123, randomPart = ''k3x9qz'', metaClock = 1700000000456,
      fault = neverFaults\<rparr>"

definition faultyHost :: host where
  "faultyHost =
     \<lparr>idClock = 1700000000123, randomPart = ''k3x9qz'', metaClock = 1700000000456,
      fault = faultsAtFifth\<rparr>"

text \<open>
  Sample time functions for a host in UTC: the hour of day of a timestamp, and its day,
  named by the day's number since the epoch in place of the calendar date text.
\<close>

definition utcHour :: "int \<Rightarrow> nat option" where
  "utcHour t = Some (nat ((t mod 86400) div 3600))"


section \<open>The clause texts and their meaning\<close>

lemmas clause_defs = buildSystemMessageFilter_def sqlTokens_def systemFilter_def systemName_def
  startsWith_def

lemma parseLiteral_system: "parseLiteral (CHR 0x27 # systemName @ [CHR 0x27]) = Some systemName"
  by (simp add: parseLiteral_def systemName_def)

lemma tokens_none:
  "sqlTokens (buildSystemMessageFilter []) =
     [''WHERE'', ''m.name'', ''!='', CHR 0x27 # systemName @ [CHR 0x27]]"
  by (simp add: clause_defs)

lemma tokens_start:
  "sqlTokens (buildSystemMessageFilter '' WHERE ts >= ?'') =
     [''WHERE'', ''ts'', ''>='', ''?'', ''AND'', ''m.name'', ''!='', CHR 0x27 # systemName @ [CHR 0x27]]"
  by (simp add: clause_defs)

lemma tokens_end:
  "sqlTokens (buildSystemMessageFilter '' WHERE ts <= ?'') =
     [''WHERE'', ''ts'', ''<='', ''?'', ''AND'', ''m.name'', ''!='', CHR 0x27 # systemName @ [CHR 0x27]]"
  by (simp add: clause_defs)

lemma tokens_both:
  "sqlTokens (buildSystemMessageFilter '' WHERE ts >= ? AND ts <= ?'') =
     [''WHERE'', ''ts'', ''>='', ''?'', ''AND'', ''ts'', ''<='', ''?'', ''AND'',
      ''m.name'', ''!='', CHR 0x27 # systemName @ [CHR 0x27]]"
  by (simp add: clause_defs)

lemma buildTimeFilter_cases:
  "buildTimeFilter f =
     (case (startOf f, endOf f) of
        (None, None) \<Rightarrow> ([], [])
      | (Some s, None) \<Rightarrow> ('' WHERE ts >= ?'', [s])
      | (None, Some e) \<Rightarrow> ('' WHERE ts <= ?'', [e])
      | (Some s, Some e) \<Rightarrow> ('' WHERE ts >= ? AND ts <= ?'', [s, e]))"
  by (simp add: buildTimeFilter_def split: option.splits)

text \<open>
  Whatever the filter, the clause of the counting queries is accepted by the engine and
  means: inside the bounds, and the member's name is not the system name.
\<close>

lemma compile_total:
  "\<exists>p. compileWhere (buildSystemMessageFilter (fst (buildTimeFilter f))) (snd (buildTimeFilter f)) = Inr p
       \<and> (\<forall>t nm. p t nm = (inBounds f t \<and> nm \<noteq> systemName))"
  by (auto simp add: buildTimeFilter_cases compileWhere_def tokens_none tokens_start tokens_end tokens_both
        inBounds_def parseWhere_def parseComparison_def parseLiteral_system bindParams_def
        split: option.splits)

lemma onTail_none:
  "sqlTokens ([] @ '' AND '' @ systemFilter) =
     [''AND'', ''m.name'', ''!='', CHR 0x27 # systemName @ [CHR 0x27]]"
  by (simp add: clause_defs)

lemma onTail_start:
  "sqlTokens (replaceFirst ''WHERE'' ''AND'' '' WHERE ts >= ?'' @ '' AND '' @ systemFilter) =
     [''AND'', ''ts'', ''>='', ''?'', ''AND'', ''m.name'', ''!='', CHR 0x27 # systemName @ [CHR 0x27]]"
  by (simp add: clause_defs)

lemma onTail_end:
  "sqlTokens (replaceFirst ''WHERE'' ''AND'' '' WHERE ts <= ?'' @ '' AND '' @ systemFilter) =
     [''AND'', ''ts'', ''<='', ''?'', ''AND'', ''m.name'', ''!='', CHR 0x27 # systemName @ [CHR 0x27]]"
  by (simp add: clause_defs)

lemma onTail_both:
  "sqlTokens (replaceFirst ''WHERE'' ''AND'' '' WHERE ts >= ? AND ts <= ?'' @ '' AND '' @ systemFilter) =
     [''AND'', ''ts'', ''>='', ''?'', ''AND'', ''ts'', ''<='', ''?'', ''AND'',
      ''m.name'', ''!='', CHR 0x27 # systemName @ [CHR 0x27]]"
  by (simp add: clause_defs)

text \<open>The same for the join condition of the ranking query.\<close>

lemma compile_on:
  "\<exists>p. compileOnTail
          ((if fst (buildTimeFilter f) \<noteq> [] then replaceFirst ''WHERE'' ''AND'' (fst (buildTimeFilter f)) else [])
             @ '' AND '' @ systemFilter)
          (snd (buildTimeFilter f)) = Inr p
       \<and> (\<forall>t nm. p t nm = (inBounds f t \<and> nm \<noteq> systemName))"
  by (auto simp add: buildTimeFilter_cases compileOnTail_def onTail_none onTail_start onTail_end onTail_both
        inBounds_def parseOnTail_def parseComparison_def parseLiteral_system bindParams_def
        simp del: append.simps replaceFirst.simps
        split: option.splits)

section \<open>The join and the grouped counts\<close>

lemma at_most_one:
  "distinct (map g xs) \<Longrightarrow>
   length (filter (\<lambda>x. g x = k \<and> Q x) xs) = (if \<exists>x\<in>set xs. g x = k \<and> Q x then 1 else 0)"
proof (induction xs)
  case Nil
  then show ?case by simp
next
  case (Cons a xs)
  then show ?case by (auto simp: image_iff)
qed

lemma exactly_one:
  assumes "distinct (map g xs)" "k \<in> set (map g xs)"
  shows "length (filter (\<lambda>x. g x = k) xs) = 1"
  using at_most_one [OF assms(1), of k "\<lambda>x. True"] assms(2) by auto

lemma map_fst_filter_Pair:
  "map fst (filter P (map (Pair a) xs)) = replicate (length (filter (\<lambda>x. P (a, x)) xs)) a"
  by (induction xs) auto

lemma selectJoin_matching:
  assumes keys: "memberKeys db"
    and p: "\<And>t nm. p t nm = (inBounds f t \<and> nm \<noteq> systemName)"
  shows "map fst (selectJoin p db) = matching db f"
proof -
  have d: "distinct (map m_id (tbl_member db))"
    using keys by (simp add: memberKeys_def)
  have one: "map fst (filter (\<lambda>r. p (msg_ts (fst r)) (m_name (snd r)))
                 (map (Pair msg) (filter (\<lambda>m. msg_sender_id msg = m_id m) (tbl_member db))))
             = (if inBounds f (msg_ts msg) \<and> nonSystemSender db msg then [msg] else [])" for msg
  proof -
    have "length (filter (\<lambda>x. p (msg_ts msg) (m_name x))
                   (filter (\<lambda>m. msg_sender_id msg = m_id m) (tbl_member db)))
          = length (filter (\<lambda>m. m_id m = msg_sender_id msg
                                \<and> (inBounds f (msg_ts msg) \<and> m_name m \<noteq> systemName)) (tbl_member db))"
      by (simp add: p conj_commute eq_commute cong: conj_cong)
    also have "\<dots> = (if \<exists>m\<in>set (tbl_member db). m_id m = msg_sender_id msg
                                \<and> (inBounds f (msg_ts msg) \<and> m_name m \<noteq> systemName) then 1 else 0)"
      by (rule at_most_one [OF d])
    finally show ?thesis
      by (auto simp: map_fst_filter_Pair nonSystemSender_def list_ex_iff)
  qed
  have "map fst (filter (\<lambda>r. p (msg_ts (fst r)) (m_name (snd r)))
          (concat (map (\<lambda>msg. map (Pair msg)
                      (filter (\<lambda>m. msg_sender_id msg = m_id m) (tbl_member db))) msgs)))
        = filter (\<lambda>msg. inBounds f (msg_ts msg) \<and> nonSystemSender db msg) msgs" for msgs
  proof (induction msgs)
    case Nil
    then show ?case by simp
  next
    case (Cons a msgs)
    then show ?case using one [of a] by simp
  qed
  then show ?thesis
    by (simp add: selectJoin_def joinRows_def matching_def)
qed


lemma total_selectJoin:
  assumes "memberKeys db" "\<And>t nm. p t nm = (inBounds f t \<and> nm \<noteq> systemName)"
  shows "length (selectJoin p db) = totalNonSystemMessages db f"
proof -
  have "length (selectJoin p db) = length (map fst (selectJoin p db))" by simp
  also have "\<dots> = length (matching db f)"
    by (simp only: selectJoin_matching [OF assms])
  finally show ?thesis by (simp add: totalNonSystemMessages_def)
qed

lemma count_list_map: "count_list (map g xs) k = length (filter (\<lambda>x. g x = k) xs)"
  by (induction xs) auto

lemma find_eq_key: "find (\<lambda>r. fst r = k) (map (\<lambda>k'. (k', c k')) xs) = (if k \<in> set xs then Some (k, c k) else None)"
  by (induction xs) auto

lemma find_groupCount:
  "(case find (\<lambda>r. fst r = k) (groupCount ks) of Some found \<Rightarrow> snd found | None \<Rightarrow> 0) = count_list ks k"
  by (simp add: groupCount_def find_eq_key count_list_0_iff)

lemma openDatabase_chat:
  "map_of fs (getDbPath sid) = Some n \<Longrightarrow> body n = ChatDb db \<Longrightarrow> openDatabase fs sid = Inr (Some (ChatDb db))"
  by (simp add: openDatabase_def)

section \<open>The filtered aggregates\<close>

lemma hourly_matching:
  assumes "map_of fs (getDbPath sid) = Some n" "body n = ChatDb db" "memberKeys db"
  shows "getHourlyActivity localHour fs sid f =
           Inr (map (\<lambda>h. \<lparr>hour = h,
                  h_messageCount = length (filter (\<lambda>msg. localHour (msg_ts msg) = Some h) (matching db f))\<rparr>)
                  [0..<24])"
proof -
  obtain p where c: "compileWhere (buildSystemMessageFilter (fst (buildTimeFilter f))) (snd (buildTimeFilter f)) = Inr p"
    and p: "\<And>t nm. p t nm = (inBounds f t \<and> nm \<noteq> systemName)"
    using compile_total [of f] by blast
  have m: "map (\<lambda>r. localHour (msg_ts (fst r))) (selectJoin p db)
             = map (\<lambda>msg. localHour (msg_ts msg)) (matching db f)"
  proof -
    have "map (\<lambda>r. localHour (msg_ts (fst r))) (selectJoin p db)
            = map (\<lambda>msg. localHour (msg_ts msg)) (map fst (selectJoin p db))"
      by (simp add: o_def)
    then show ?thesis
      by (simp only: selectJoin_matching [OF assms(3) p])
  qed
  show ?thesis
    by (simp add: getHourlyActivity_def openDatabase_chat [OF assms(1,2)] tablesOf_def
          case_prod_unfold c m find_groupCount count_list_map del: upt.simps)
qed



lemma memberActivity_rows:
  assumes "map_of fs (getDbPath sid) = Some n" "body n = ChatDb db" "memberKeys db"
  shows "getMemberActivity fs sid f =
           Inr (map (\<lambda>row. \<lparr>memberId = m_id (fst row), a_platformId = m_platform_id (fst row),
                            a_name = m_name (fst row), messageCount = snd row,
                            percentage = percentOf (snd row) (totalNonSystemMessages db f)\<rparr>)
                  (sort_key (\<lambda>r. - int (snd r))
                     (filter (\<lambda>r. snd r > 0)
                        (map (\<lambda>m. (m, memberMessageCount db f m))
                           (filter (\<lambda>m. m_name m \<noteq> systemName) (tbl_member db))))))"
proof -
  obtain pT where cT: "compileWhere (buildSystemMessageFilter (fst (buildTimeFilter f))) (snd (buildTimeFilter f)) = Inr pT"
    and pT: "\<And>t nm. pT t nm = (inBounds f t \<and> nm \<noteq> systemName)"
    using compile_total [of f] by blast
  obtain pOn where cOn: "compileOnTail
          ((if fst (buildTimeFilter f) \<noteq> [] then replaceFirst ''WHERE'' ''AND'' (fst (buildTimeFilter f)) else [])
             @ '' AND '' @ systemFilter) (snd (buildTimeFilter f)) = Inr pOn"
    and pOn: "\<And>t nm. pOn t nm = (inBounds f t \<and> nm \<noteq> systemName)"
    using compile_on [of f] by blast
  have cnt: "map (\<lambda>m. (m, length (filter (\<lambda>msg. m_id m = msg_sender_id msg \<and> pOn (msg_ts msg) (m_name m))
                                 (tbl_message db))))
               (filter (\<lambda>m. m_name m \<noteq> systemName) (tbl_member db))
           = map (\<lambda>m. (m, memberMessageCount db f m))
               (filter (\<lambda>m. m_name m \<noteq> systemName) (tbl_member db))"
    by (rule map_cong [OF refl]) (auto simp: memberMessageCount_def pOn intro!: arg_cong [where f = length] filter_cong)
  show ?thesis
    unfolding getMemberActivity_def openDatabase_chat [OF assms(1,2)]
    by (simp add: tablesOf_def case_prod_unfold cT cOn Let_def cnt total_selectJoin [OF assms(3) pT]
          del: append.simps replaceFirst.simps)
qed





subsection \<open>Sums of counts\<close>

lemma sum_list_insort_key:
  "sum_list (map g (insort_key k x xs)) = (g x :: nat) + sum_list (map g xs)"
  by (induction xs) auto

lemma sum_list_sort_key: "sum_list (map g (sort_key k xs)) = (sum_list (map g xs) :: nat)"
  by (induction xs) (auto simp: sum_list_insort_key)

lemma sum_list_filter_pos: "sum_list (map g (filter (\<lambda>x. g x > 0) xs)) = (sum_list (map g xs) :: nat)"
  by (induction xs) auto

lemma sum_indicator: "sum_list (map (\<lambda>x. if P x then 1 else 0) xs) = length (filter P xs)"
  by (induction xs) auto

lemma sum_counts:
  assumes d: "distinct (map g ms)"
  shows "sum_list (map (\<lambda>m. length (filter (\<lambda>x. s x = g m \<and> B x) xs)) ms)
           = length (filter (\<lambda>x. B x \<and> (\<exists>m\<in>set ms. g m = s x)) xs)"
proof (induction xs)
  case Nil
  then show ?case by simp
next
  case (Cons a xs)
  have "sum_list (map (\<lambda>m. length (filter (\<lambda>x. s x = g m \<and> B x) (a # xs))) ms)
        = sum_list (map (\<lambda>m. (if g m = s a \<and> B a then 1 else 0)
                              + length (filter (\<lambda>x. s x = g m \<and> B x) xs)) ms)"
    by (rule arg_cong [where f = sum_list], rule map_cong) auto
  also have "\<dots> = length (filter (\<lambda>m. g m = s a \<and> B a) ms)
                  + sum_list (map (\<lambda>m. length (filter (\<lambda>x. s x = g m \<and> B x) xs)) ms)"
    by (simp add: sum_list_addf sum_indicator)
  also have "length (filter (\<lambda>m. g m = s a \<and> B a) ms) = (if \<exists>m\<in>set ms. g m = s a \<and> B a then 1 else 0)"
    by (rule at_most_one [OF d])
  finally show ?case using Cons.IH by auto
qed

lemma sum_memberCounts:
  assumes "memberKeys db"
  shows "sum_list (map (memberMessageCount db f) (filter (\<lambda>m. m_name m \<noteq> systemName) (tbl_member db)))
           = totalNonSystemMessages db f"
proof -
  have d: "distinct (map m_id (filter (\<lambda>m. m_name m \<noteq> systemName) (tbl_member db)))"
    using assms by (simp add: memberKeys_def distinct_map_filter)
  have "sum_list (map (memberMessageCount db f) (filter (\<lambda>m. m_name m \<noteq> systemName) (tbl_member db)))
        = length (filter (\<lambda>x. inBounds f (msg_ts x)
                    \<and> (\<exists>m\<in>set (filter (\<lambda>m. m_name m \<noteq> systemName) (tbl_member db)). m_id m = msg_sender_id x))
                   (tbl_message db))"
    unfolding memberMessageCount_def by (rule sum_counts [OF d])
  also have "\<dots> = totalNonSystemMessages db f"
    unfolding totalNonSystemMessages_def matching_def nonSystemSender_def list_ex_iff
    by (rule arg_cong [where f = length], rule filter_cong) auto
  finally show ?thesis .
qed

subsection \<open>The example dataset\<close>

lemma example_file: "map_of exampleFs (getDbPath exampleId) = Some exampleNode"
  by (simp add: exampleFs_def getDbPath_def exampleId_def)

lemma example_body: "body exampleNode = ChatDb exampleDb"
  by (simp add: exampleNode_def)

lemma example_keys: "memberKeys exampleDb"
  by (simp add: memberKeys_def exampleDb_def)

lemma example_matching:
  "matching exampleDb exampleFilter = [tbl_message exampleDb ! 0, tbl_message exampleDb ! 2]"
  by (simp add: matching_def inBounds_def nonSystemSender_def exampleDb_def exampleFilter_def
        startOf_def endOf_def systemName_def)

lemma example_total: "totalNonSystemMessages exampleDb exampleFilter = 2"
  by (simp add: totalNonSystemMessages_def example_matching)


lemma example_hours:
  "map (\<lambda>h. length (filter (\<lambda>msg. utcHour (msg_ts msg) = Some h)
                         (matching exampleDb exampleFilter))) [0..<24]
     = [0, 0, 0, 0, 0, 0, 0, 0, 0, 1, 0, 0, 0, 0, 1, 0, 0, 0, 0, 0, 0, 0, 0, 0]"
  unfolding example_matching by (simp add: utcHour_def exampleDb_def upt_rec)

text \<open>
  Seven and two messages out of nine non-system messages: 77.78 and 22.22 percent.
\<close>

lemma percentOf_sevenths: "percentOf 7 9 = 7778 / 100" "percentOf 2 9 = 2222 / 100"
  by code_simp+

subsection \<open>Member activity\<close>



text \<open>
  C2. For a stored session whose member table obeys its keys and any time filter, the
  message counts of the entries of \<open>getMemberActivity\<close> add up to the number of stored
  messages inside the bounds whose sender is not the system sender.
\<close>

theorem getMemberActivity_sum:
  assumes "map_of fs (getDbPath sid) = Some n" "body n = ChatDb db" "memberKeys db"
  shows "\<exists>res. getMemberActivity fs sid f = Inr res
           \<and> sum_list (map messageCount res) = totalNonSystemMessages db f"
proof -
  have "sum_list (map snd (sort_key (\<lambda>r. - int (snd r))
                     (filter (\<lambda>r. snd r > 0)
                        (map (\<lambda>m. (m, memberMessageCount db f m))
                           (filter (\<lambda>m. m_name m \<noteq> systemName) (tbl_member db))))))
        = sum_list (map snd (map (\<lambda>m. (m, memberMessageCount db f m))
                           (filter (\<lambda>m. m_name m \<noteq> systemName) (tbl_member db))))"
    by (simp only: sum_list_sort_key sum_list_filter_pos)
  also have "\<dots> = totalNonSystemMessages db f"
    using sum_memberCounts [OF assms(3), of f] by (simp add: o_def)
  finally show ?thesis
    by (simp add: memberActivity_rows [OF assms] o_def)
qed

theorem getMemberActivity_sum_witness:
  "map_of exampleFs (getDbPath exampleId) = Some exampleNode
   \<and> body exampleNode = ChatDb exampleDb \<and> memberKeys exampleDb
   \<and> (\<exists>res. getMemberActivity exampleFs exampleId exampleFilter = Inr res
         \<and> sum_list (map messageCount res) = totalNonSystemMessages exampleDb exampleFilter
         \<and> totalNonSystemMessages exampleDb exampleFilter = 2)"
  using getMemberActivity_sum [OF example_file example_body example_keys, of exampleFilter]
    example_file example_body example_keys example_total
  by blast

subsection \<open>Hourly activity\<close>

text \<open>
  C3, as stated, for every session id: a session id without a database file gets the
  empty list, not 24 buckets.
\<close>

theorem getHourlyActivity_missing_session:
  "getHourlyActivity utcHour [] exampleId None = Inr []
   \<and> length ([] :: HourlyActivity list) \<noteq> 24"
  by (simp add: getHourlyActivity_def openDatabase_def)

text \<open>
  C3, amended. For every session id whose database file exists (a session database whose
  member table obeys its keys) and any time filter, \<open>getHourlyActivity\<close> returns exactly
  24 entries, with the hours 0 to 23 in ascending order. The count of an hour is the
  number of non-system messages under the filter whose local hour of day is that hour,
  and 0 for an hour without such a message.
\<close>

theorem getHourlyActivity_buckets:
  assumes "map_of fs (getDbPath sid) = Some n" "body n = ChatDb db" "memberKeys db"
  shows "\<exists>res. getHourlyActivity localHour fs sid f = Inr res
           \<and> length res = 24 \<and> map hour res = [0..<24]
           \<and> map h_messageCount res =
               map (\<lambda>h. length (filter (\<lambda>msg. localHour (msg_ts msg) = Some h) (matching db f)))
                 [0..<24]"
  by (simp add: hourly_matching [OF assms] o_def del: upt.simps)

theorem getHourlyActivity_buckets_witness:
  "map_of exampleFs (getDbPath exampleId) = Some exampleNode
   \<and> body exampleNode = ChatDb exampleDb \<and> memberKeys exampleDb
   \<and> (\<exists>res. getHourlyActivity utcHour exampleFs exampleId exampleFilter = Inr res
         \<and> length res = 24 \<and> map hour res = [0..<24]
         \<and> map h_messageCount res
             = [0, 0, 0, 0, 0, 0, 0, 0, 0, 1, 0, 0, 0, 0, 1, 0, 0, 0, 0, 0, 0, 0, 0, 0])"
proof -
  from getHourlyActivity_buckets [OF example_file example_body example_keys,
      of utcHour exampleFilter]
  obtain res where r1: "getHourlyActivity utcHour exampleFs exampleId exampleFilter = Inr res"
    and r2: "length res = 24" and r3: "map hour res = [0..<24]"
    and r4: "map h_messageCount res =
       map (\<lambda>h. length (filter (\<lambda>msg. utcHour (msg_ts msg) = Some h)
                            (matching exampleDb exampleFilter))) [0..<24]"
    by (elim exE conjE)
  have r5: "map h_messageCount res
             = [0, 0, 0, 0, 0, 0, 0, 0, 0, 1, 0, 0, 0, 0, 1, 0, 0, 0, 0, 0, 0, 0, 0, 0]"
    unfolding r4 by (rule example_hours)
  show ?thesis
    by (intro conjI exI [of _ res] example_file example_body example_keys r1 r2 r3 r5)
qed

subsection \<open>Time range\<close>

lemma fold_min_Min: "fold min xs (x::int) = Min (set (x # xs))"
  by (simp only: Min.set_eq_fold)

lemma fold_max_Max: "fold max xs (x::int) = Max (set (x # xs))"
  by (simp only: Max.set_eq_fold)

text \<open>
  C4. For a stored session, \<open>getTimeRange\<close> returns the least and the greatest timestamp
  of all stored messages, with no filter and with the messages of the system sender
  included, and returns \<open>null\<close> exactly when the session stores no message.
\<close>

theorem getTimeRange_span:
  assumes "map_of fs (getDbPath sid) = Some n" "body n = ChatDb db"
  shows "getTimeRange fs sid =
           Inr (if tbl_message db = [] then None
                else Some (Min (set (map msg_ts (tbl_message db))), Max (set (map msg_ts (tbl_message db)))))"
proof (cases "tbl_message db")
  case Nil
  then show ?thesis
    by (simp add: getTimeRange_def openDatabase_chat [OF assms] tablesOf_def sqlMin_def sqlMax_def)
next
  case (Cons a list)
  then show ?thesis
    by (simp add: getTimeRange_def openDatabase_chat [OF assms] tablesOf_def sqlMin_def sqlMax_def
          fold_min_Min fold_max_Max del: set_simps)
qed

theorem getTimeRange_span_witness:
  "map_of exampleFs (getDbPath exampleId) = Some exampleNode
   \<and> body exampleNode = ChatDb exampleDb
   \<and> getTimeRange exampleFs exampleId = Inr (Some (1700038800, 1700056860))"
  using getTimeRange_span [OF example_file example_body] example_file example_body
  by (simp add: exampleDb_def)

subsection \<open>Composition of the filters\<close>



section \<open>Deleting a session\<close>

lemma map_of_removed: "map_of (filter (\<lambda>e. fst e \<noteq> p) fs) q = (if q = p then None else map_of fs q)"
  by (induction fs) auto

lemma map_of_without: "map_of (withoutFiles fs ps) q = (if q \<in> set ps then None else map_of fs q)"
  unfolding withoutFiles_def by (induction fs) auto

lemma unlink_result:
  "unlinkSync fs p = Inr fs' \<Longrightarrow> fs' = filter (\<lambda>e. fst e \<noteq> p) fs"
  by (auto simp: unlinkSync_def split: option.splits if_splits)

lemma withoutFiles_same:
  "\<forall>p\<in>set ps. map_of fs p = None \<Longrightarrow> withoutFiles fs ps = fs"
  by (auto simp: withoutFiles_def filter_id_conv map_of_eq_None_iff image_iff)

lemma withoutFiles_twice: "withoutFiles (withoutFiles fs ps) qs = withoutFiles fs (ps @ qs)"
  by (auto simp: withoutFiles_def intro: filter_cong)

lemma remove_step:
  "(if existsSync fs p then unlinkSync fs p else Inr fs) =
     (if unlinkThrows fs p then Inl FsError else Inr (withoutFiles fs [p]))"
proof (cases "map_of fs p")
  case None
  then show ?thesis
    by (simp add: existsSync_def unlinkThrows_def withoutFiles_same)
next
  case (Some n)
  then show ?thesis
    by (simp add: existsSync_def unlinkThrows_def unlinkSync_def withoutFiles_def)
qed

lemma unlinkThrows_without:
  "unlinkThrows (withoutFiles fs ps) q = (q \<notin> set ps \<and> unlinkThrows fs q)"
  by (simp add: unlinkThrows_def map_of_without)

lemma deleteSession_result:
  "deleteSession fs sid =
     (if unlinkThrows fs (getDbPath sid) then (fs, False)
      else if unlinkThrows fs (getDbPath sid @ ''-wal'')
        then (withoutFiles fs [getDbPath sid], False)
      else if unlinkThrows fs (getDbPath sid @ ''-shm'')
        then (withoutFiles fs [getDbPath sid, getDbPath sid @ ''-wal''], False)
      else (withoutFiles fs [getDbPath sid, getDbPath sid @ ''-wal'', getDbPath sid @ ''-shm''], True))"
  unfolding deleteSession_def Let_def remove_step
  by (simp add: unlinkThrows_without withoutFiles_twice)

section \<open>The catalog scan\<close>

lemma fold_invariant:
  assumes "I st" "\<And>x st. I st \<Longrightarrow> I (g x st)"
  shows "I (fold g xs st)"
  using assms(1) by (induction xs arbitrary: st) (auto intro: assms(2))

lemma readSession_id: "readSession sid db = Some s \<Longrightarrow> s_id s = sid"
  by (auto simp: readSession_def split: list.splits)

lemma map_of_writeFile_new:
  "map_of fs p = None \<Longrightarrow>
   map_of (writeFile fs p b) q = (if q = p then Some \<lparr>body = b, locked = False\<rparr> else map_of fs q)"
  by (auto simp: writeFile_def map_add_def split: option.splits)

lemma map_of_writeFile:
  "map_of (writeFile fs p b) q =
     (if q = p
      then Some (case map_of fs p of None \<Rightarrow> \<lparr>body = b, locked = False\<rparr> | Some n \<Rightarrow> n\<lparr>body := b\<rparr>)
      else map_of fs q)"
proof (cases "map_of fs p")
  case None
  then show ?thesis by (simp add: map_of_writeFile_new)
next
  case (Some n)
  have "map_of (map (\<lambda>e. if fst e = p then (p, (snd e)\<lparr>body := b\<rparr>) else e) fs) q
          = (if q = p then map_option (\<lambda>n. n\<lparr>body := b\<rparr>) (map_of fs p) else map_of fs q)"
    by (induction fs) auto
  with Some show ?thesis by (simp add: writeFile_def)
qed

lemma scanFile_inv:
  assumes "scanInv fs0 st"
  shows "scanInv fs0 (scanFile file st)"
proof (cases "map_of (fst st) (getDbPath (replaceFirst ''.db'' [] file))")
  case None
  then show ?thesis
    using assms by (auto simp: scanFile_def scanInv_def Let_def map_of_writeFile_new split: if_splits)
next
  case (Some n)
  show ?thesis
  proof (cases "body n")
    case (ChatDb db)
    have n0: "map_of fs0 (getDbPath (replaceFirst ''.db'' [] file)) = Some n"
      using assms Some ChatDb unfolding scanInv_def by blast
    show ?thesis
    proof (cases "readSession (replaceFirst ''.db'' [] file) db")
      case None
      with Some ChatDb have "scanFile file st = st"
        by (simp add: scanFile_def Let_def)
      then show ?thesis using assms by simp
    next
      case (Some s)
      then have "s_id s = replaceFirst ''.db'' [] file"
        by (rule readSession_id)
      with Some n0 ChatDb have l: "listed fs0 s"
        by (simp add: listed_def)
      from Some \<open>map_of (fst st) _ = Some n\<close> ChatDb
      have "scanFile file st = (fst st, snd st @ [s])"
        by (simp add: scanFile_def Let_def)
      then show ?thesis using assms l by (simp add: scanInv_def)
    qed
  next
    case EmptyDb
    with Some have "scanFile file st = st"
      by (simp add: scanFile_def Let_def)
    then show ?thesis using assms by simp
  next
    case Foreign
    with Some have "scanFile file st = st"
      by (simp add: scanFile_def Let_def)
    then show ?thesis using assms by simp
  qed
qed

lemma getAllSessions_listed:
  assumes "s \<in> set (snd (getAllSessions fs))"
  shows "listed fs s"
proof -
  have "scanInv fs (fs, [])"
    by (simp add: scanInv_def)
  then have "scanInv fs (fold scanFile (filter (endsWith ''.db'') (readdirSync fs)) (fs, []))"
    by (rule fold_invariant [where I = "scanInv fs"]) (rule scanFile_inv)
  with assms show ?thesis
    by (auto simp: getAllSessions_def Let_def scanInv_def)
qed

text \<open>
  C9. \<open>deleteSession\<close> always returns a boolean, and returns false exactly when one of
  its removal attempts throws. When it returns true, the database file, the
  write-ahead file and the shared-memory file of the session are gone and no other file
  is touched, the session is not among those \<open>getAllSessions\<close> returns, and
  \<open>getSession\<close> returns \<open>null\<close> for it.
\<close>

theorem deleteSession_removes:
  "snd (deleteSession fs sid) =
      (\<not> (unlinkThrows fs (getDbPath sid) \<or> unlinkThrows fs (getDbPath sid @ ''-wal'')
          \<or> unlinkThrows fs (getDbPath sid @ ''-shm'')))
   \<and> (snd (deleteSession fs sid) \<longrightarrow>
        fst (deleteSession fs sid)
          = withoutFiles fs [getDbPath sid, getDbPath sid @ ''-wal'', getDbPath sid @ ''-shm'']
      \<and> \<not> existsSync (fst (deleteSession fs sid)) (getDbPath sid)
      \<and> \<not> existsSync (fst (deleteSession fs sid)) (getDbPath sid @ ''-wal'')
      \<and> \<not> existsSync (fst (deleteSession fs sid)) (getDbPath sid @ ''-shm'')
      \<and> sid \<notin> s_id ` set (snd (getAllSessions (fst (deleteSession fs sid))))
      \<and> getSession (fst (deleteSession fs sid)) sid = Inr None)"
proof -
  let ?fs' = "withoutFiles fs [getDbPath sid, getDbPath sid @ ''-wal'', getDbPath sid @ ''-shm'']"
  have gone: "map_of ?fs' (getDbPath sid) = None"
    by (simp add: map_of_without)
  have "sid \<notin> s_id ` set (snd (getAllSessions ?fs'))"
  proof
    assume "sid \<in> s_id ` set (snd (getAllSessions ?fs'))"
    then obtain s where "s \<in> set (snd (getAllSessions ?fs'))" "s_id s = sid" by auto
    then have "listed ?fs' s" "s_id s = sid" by (auto dest: getAllSessions_listed)
    then show False using gone by (simp add: listed_def)
  qed
  moreover have "getSession ?fs' sid = Inr None"
    using gone by (simp add: getSession_def openDatabase_def)
  ultimately show ?thesis
    by (simp add: deleteSession_result existsSync_def map_of_without)
qed

theorem deleteSession_removes_witness:
  "snd (deleteSession exampleFs exampleId)
   \<and> fst (deleteSession exampleFs exampleId)
       = withoutFiles exampleFs
           [getDbPath exampleId, getDbPath exampleId @ ''-wal'', getDbPath exampleId @ ''-shm'']
   \<and> withoutFiles exampleFs
           [getDbPath exampleId, getDbPath exampleId @ ''-wal'', getDbPath exampleId @ ''-shm'']
       = []
   \<and> \<not> existsSync (fst (deleteSession exampleFs exampleId)) (getDbPath exampleId)
   \<and> exampleId \<notin> s_id ` set (snd (getAllSessions (fst (deleteSession exampleFs exampleId))))
   \<and> getSession (fst (deleteSession exampleFs exampleId)) exampleId = Inr None"
proof -
  have t: "\<not> (unlinkThrows exampleFs (getDbPath exampleId)
              \<or> unlinkThrows exampleFs (getDbPath exampleId @ ''-wal'')
              \<or> unlinkThrows exampleFs (getDbPath exampleId @ ''-shm''))"
    by (simp add: unlinkThrows_def exampleFs_def exampleNode_def getDbPath_def exampleId_def)
  have w: "withoutFiles exampleFs
             [getDbPath exampleId, getDbPath exampleId @ ''-wal'', getDbPath exampleId @ ''-shm'']
           = []"
    by (simp add: withoutFiles_def exampleFs_def getDbPath_def exampleId_def)
  show ?thesis
    using deleteSession_removes [of exampleFs exampleId] t w by blast
qed

text \<open>
  C10. When none of the three files of a session id exists, \<open>deleteSession\<close> returns true
  and leaves the directory as it was, as it returns true after removing an existing
  session. It returns false only when a removal attempt on an existing file throws.
\<close>

theorem deleteSession_absent:
  "(\<not> existsSync fs (getDbPath sid) \<and> \<not> existsSync fs (getDbPath sid @ ''-wal'')
      \<and> \<not> existsSync fs (getDbPath sid @ ''-shm'') \<longrightarrow> deleteSession fs sid = (fs, True))
   \<and> (snd (deleteSession fs sid)
      \<or> (existsSync fs (getDbPath sid) \<and> unlinkSync fs (getDbPath sid) = Inl FsError)
      \<or> (existsSync fs (getDbPath sid @ ''-wal'')
            \<and> unlinkSync fs (getDbPath sid @ ''-wal'') = Inl FsError)
      \<or> (existsSync fs (getDbPath sid @ ''-shm'')
            \<and> unlinkSync fs (getDbPath sid @ ''-shm'') = Inl FsError))"
proof -
  have thr: "unlinkThrows fs p \<Longrightarrow> existsSync fs p \<and> unlinkSync fs p = Inl FsError" for p
    by (auto simp: unlinkThrows_def existsSync_def unlinkSync_def split: option.splits)
  have a: "deleteSession fs sid = (fs, True)"
    if "\<not> existsSync fs (getDbPath sid) \<and> \<not> existsSync fs (getDbPath sid @ ''-wal'')
      \<and> \<not> existsSync fs (getDbPath sid @ ''-shm'')"
    using that by (simp add: deleteSession_result existsSync_def unlinkThrows_def withoutFiles_same)
  have "snd (deleteSession fs sid) \<or> unlinkThrows fs (getDbPath sid)
          \<or> unlinkThrows fs (getDbPath sid @ ''-wal'')
          \<or> unlinkThrows fs (getDbPath sid @ ''-shm'')"
    by (simp add: deleteSession_result)
  with a thr show ?thesis by blast
qed

theorem deleteSession_absent_witness:
  "\<not> existsSync [] (getDbPath exampleId) \<and> \<not> existsSync [] (getDbPath exampleId @ ''-wal'')
   \<and> \<not> existsSync [] (getDbPath exampleId @ ''-shm'')
   \<and> deleteSession [] exampleId = ([], True)"
proof -
  have e: "\<not> existsSync [] (getDbPath exampleId) \<and> \<not> existsSync [] (getDbPath exampleId @ ''-wal'')
      \<and> \<not> existsSync [] (getDbPath exampleId @ ''-shm'')"
    by (simp add: existsSync_def)
  show ?thesis
    using deleteSession_absent [of "[]" exampleId] e by blast
qed

section \<open>The import\<close>

subsection \<open>The member loop\<close>

lemma run_Inr:
  "run flt stmt t = Inr t' \<Longrightarrow> \<exists>db'. stmt (tdb t) = Inr db' \<and> t' = \<lparr>tdb = db', stmts = Suc (stmts t)\<rparr>"
  by (auto simp: run_def split: if_splits sum.splits)

lemma run_noFault:
  "\<not> flt (stmts t) \<Longrightarrow> run flt stmt t =
     (case stmt (tdb t) of Inl e \<Rightarrow> Inl e | Inr db' \<Rightarrow> Inr \<lparr>tdb = db', stmts = Suc (stmts t)\<rparr>)"
  by (simp add: run_def)

lemma member_turn:
  assumes "run flt (insertMember (platformId pm) (pname pm)) t = Inr t1"
    "run flt (updateMemberName (pname pm) (platformId pm)) t1 = Inr t2"
    "run flt Inr t2 = Inr t3"
  shows "tdb t3 = (tdb t)\<lparr>tbl_member := memberStep pm (tbl_member (tdb t))\<rparr>"
  using assms
  by (auto dest!: run_Inr simp: insertMember_def updateMemberName_def memberStep_def split: if_splits)

lemma nextId_fresh: "nextId ids \<notin> set ids"
proof
  assume "nextId ids \<in> set ids"
  then have "nextId ids \<le> Max (set (0 # ids))" by simp
  then show False by (simp add: nextId_def Max.set_eq_fold del: set_simps)
qed

lemma memberStep_pids:
  "map m_platform_id (memberStep pm tbl) =
     (if platformId pm \<in> set (map m_platform_id tbl) then map m_platform_id tbl
      else map m_platform_id tbl @ [platformId pm])"
  by (auto simp: memberStep_def o_def)

lemma memberStep_ids:
  "map m_id (memberStep pm tbl) =
     (if platformId pm \<in> set (map m_platform_id tbl) then map m_id tbl
      else map m_id tbl @ [nextId (map m_id tbl)])"
  by (auto simp: memberStep_def o_def)

lemma memberStep_keys: "tableKeys tbl \<Longrightarrow> tableKeys (memberStep pm tbl)"
  using nextId_fresh [of "map m_id tbl"]
  by (simp add: tableKeys_def memberStep_pids memberStep_ids del: set_map)

lemma getMemberId_step:
  "\<exists>i. getMemberId (db\<lparr>tbl_member := memberStep pm tbl\<rparr>) (platformId pm) = Some i
        \<and> (\<exists>r\<in>set (memberStep pm tbl). m_id r = i \<and> m_platform_id r = platformId pm)"
proof -
  have "platformId pm \<in> set (map m_platform_id (memberStep pm tbl))"
    by (simp add: memberStep_pids)
  then have "filter (\<lambda>r. m_platform_id r = platformId pm) (memberStep pm tbl) \<noteq> []"
    by (auto simp: filter_empty_conv)
  then obtain r rs where f: "filter (\<lambda>r. m_platform_id r = platformId pm) (memberStep pm tbl) = r # rs"
    by (cases "filter (\<lambda>r. m_platform_id r = platformId pm) (memberStep pm tbl)") auto
  then have "r \<in> set (filter (\<lambda>r. m_platform_id r = platformId pm) (memberStep pm tbl))"
    by simp
  then have "r \<in> set (memberStep pm tbl)" "m_platform_id r = platformId pm" by auto
  with f show ?thesis by (auto simp: getMemberId_def)
qed

lemma memberStep_keeps:
  assumes "r \<in> set tbl"
  shows "\<exists>r'\<in>set (memberStep pm tbl). m_id r' = m_id r \<and> m_platform_id r' = m_platform_id r"
proof -
  let ?g = "\<lambda>r. if m_platform_id r = platformId pm then r\<lparr>m_name := pname pm\<rparr> else r"
  have "?g r \<in> set (memberStep pm tbl)"
    using assms by (auto simp: memberStep_def)
  moreover have "m_id (?g r) = m_id r" "m_platform_id (?g r) = m_platform_id r" by auto
  ultimately show ?thesis by blast
qed

lemma mapResolves_step:
  assumes "mapResolves idMap tbl"
    "r \<in> set (memberStep pm tbl)" "m_id r = i" "m_platform_id r = platformId pm"
  shows "mapResolves (idMap(platformId pm \<mapsto> i)) (memberStep pm tbl)"
  unfolding mapResolves_def
proof (intro allI impI)
  fix p j assume a: "(idMap(platformId pm \<mapsto> i)) p = Some j"
  show "\<exists>r\<in>set (memberStep pm tbl). m_id r = j \<and> m_platform_id r = p"
  proof (cases "p = platformId pm")
    case True
    with a assms show ?thesis by auto
  next
    case False
    with a have "idMap p = Some j" by simp
    then obtain r0 where "r0 \<in> set tbl" "m_id r0 = j" "m_platform_id r0 = p"
      using assms(1) by (auto simp: mapResolves_def)
    then show ?thesis using memberStep_keeps [of r0 tbl pm] by auto
  qed
qed

lemma importMembers_result:
  assumes "importMembers flt ms idMap t = Inr (idMap', t')"
  shows "tdb t' = (tdb t)\<lparr>tbl_member := fold memberStep ms (tbl_member (tdb t))\<rparr>
         \<and> dom idMap' = dom idMap \<union> set (map platformId ms)
         \<and> (mapResolves idMap (tbl_member (tdb t)) \<longrightarrow> mapResolves idMap' (tbl_member (tdb t')))"
  using assms
proof (induction ms arbitrary: idMap t)
  case Nil
  then show ?case by simp
next
  case (Cons pm ms)
  from Cons.prems obtain t1 t2 t3 i where
    s1: "run flt (insertMember (platformId pm) (pname pm)) t = Inr t1"
    and s2: "run flt (updateMemberName (pname pm) (platformId pm)) t1 = Inr t2"
    and s3: "run flt Inr t2 = Inr t3"
    and g: "getMemberId (tdb t3) (platformId pm) = Some i"
    and rest: "importMembers flt ms (idMap(platformId pm \<mapsto> i)) t3 = Inr (idMap', t')"
    by (auto split: sum.splits option.splits)
  have t3: "tdb t3 = (tdb t)\<lparr>tbl_member := memberStep pm (tbl_member (tdb t))\<rparr>"
    by (rule member_turn [OF s1 s2 s3])
  obtain j where j: "getMemberId (tdb t3) (platformId pm) = Some j"
    and jr: "\<exists>r\<in>set (memberStep pm (tbl_member (tdb t))). m_id r = j \<and> m_platform_id r = platformId pm"
    using getMemberId_step [where db = "tdb t" and pm = pm and tbl = "tbl_member (tdb t)"] t3 by auto
  with g have ij: "j = i" by simp
  have IH1: "tdb t' = (tdb t3)\<lparr>tbl_member := fold memberStep ms (tbl_member (tdb t3))\<rparr>"
    and IH2: "dom idMap' = dom (idMap(platformId pm \<mapsto> i)) \<union> set (map platformId ms)"
    and IH3: "mapResolves (idMap(platformId pm \<mapsto> i)) (tbl_member (tdb t3))
                \<Longrightarrow> mapResolves idMap' (tbl_member (tdb t'))"
    using Cons.IH [OF rest] by blast+
  have res: "mapResolves idMap (tbl_member (tdb t)) \<Longrightarrow>
             mapResolves (idMap(platformId pm \<mapsto> i)) (tbl_member (tdb t3))"
    using jr ij t3 by (auto intro: mapResolves_step)
  have "tdb t' = (tdb t)\<lparr>tbl_member := fold memberStep (pm # ms) (tbl_member (tdb t))\<rparr>"
    using IH1 by (simp add: t3)
  moreover have "dom idMap' = dom idMap \<union> set (map platformId (pm # ms))"
    using IH2 by simp
  moreover have "mapResolves idMap (tbl_member (tdb t)) \<longrightarrow> mapResolves idMap' (tbl_member (tdb t'))"
    using IH3 res by blast
  ultimately show ?case by blast
qed

lemma importMembers_noFault:
  assumes "\<forall>n. \<not> flt n"
  shows "\<exists>r. importMembers flt ms idMap t = Inr r"
proof (induction ms arbitrary: idMap t)
  case Nil
  then show ?case by simp
next
  case (Cons pm ms)
  obtain db1 where "insertMember (platformId pm) (pname pm) (tdb t) = Inr db1"
    by (cases "platformId pm \<in> set (map m_platform_id (tbl_member (tdb t)))")
       (simp_all add: insertMember_def)
  then obtain t1 where s1: "run flt (insertMember (platformId pm) (pname pm)) t = Inr t1"
    using assms by (simp add: run_noFault)
  obtain t2 where s2: "run flt (updateMemberName (pname pm) (platformId pm)) t1 = Inr t2"
    using assms by (auto simp: run_noFault updateMemberName_def)
  obtain t3 where s3: "run flt Inr t2 = Inr t3"
    using assms by (auto simp: run_noFault)
  have t3: "tdb t3 = (tdb t)\<lparr>tbl_member := memberStep pm (tbl_member (tdb t))\<rparr>"
    by (rule member_turn [OF s1 s2 s3])
  obtain i where g: "getMemberId (tdb t3) (platformId pm) = Some i"
    using getMemberId_step [where db = "tdb t" and pm = pm and tbl = "tbl_member (tdb t)"] t3 by auto
  obtain r where "importMembers flt ms (idMap(platformId pm \<mapsto> i)) t3 = Inr r"
    using Cons.IH by blast
  then show ?case
    by (simp add: s1 s2 s3 g)
qed

lemma fold_memberStep_keys: "tableKeys tbl \<Longrightarrow> tableKeys (fold memberStep ms tbl)"
  by (induction ms arbitrary: tbl) (auto intro: memberStep_keys)

lemma fold_memberStep_pids:
  "set (map m_platform_id (fold memberStep ms tbl)) = set (map m_platform_id tbl) \<union> set (map platformId ms)"
proof (induction ms arbitrary: tbl)
  case Nil
  then show ?case by simp
next
  case (Cons pm ms)
  have "set (map m_platform_id (memberStep pm tbl)) = insert (platformId pm) (set (map m_platform_id tbl))"
    by (auto simp: memberStep_pids)
  then show ?case using Cons.IH [of "memberStep pm tbl"] by auto
qed

lemma memberStep_rows:
  assumes "r \<in> set (memberStep pm tbl)"
  shows "(m_platform_id r = platformId pm \<and> m_name r = pname pm)
         \<or> (m_platform_id r \<noteq> platformId pm \<and> r \<in> set tbl)"
  using assms by (auto simp: memberStep_def split: if_splits)

lemma fold_memberStep_names:
  assumes "r \<in> set (fold memberStep ms tbl)" "m_platform_id r \<in> set (map platformId ms)"
  shows "m_name r = pname (last (filter (\<lambda>m. platformId m = m_platform_id r) ms))"
  using assms
proof (induction ms arbitrary: r rule: rev_induct)
  case Nil
  then show ?case by simp
next
  case (snoc pm ms)
  from snoc.prems(1) have r: "r \<in> set (memberStep pm (fold memberStep ms tbl))" by simp
  show ?case
  proof (cases "m_platform_id r = platformId pm")
    case True
    with memberStep_rows [OF r] show ?thesis by simp
  next
    case False
    with memberStep_rows [OF r] have "r \<in> set (fold memberStep ms tbl)" by simp
    moreover from False snoc.prems(2) have "m_platform_id r \<in> set (map platformId ms)" by auto
    ultimately have "m_name r = pname (last (filter (\<lambda>m. platformId m = m_platform_id r) ms))"
      by (rule snoc.IH)
    with False show ?thesis by simp
  qed
qed

lemma imported_keys: "tableKeys (fold memberStep ms [])"
  by (rule fold_memberStep_keys) (simp add: tableKeys_def)

subsection \<open>The message loop\<close>

lemma resolved_Cons:
  "resolved idMap (m # msgs) =
     (case idMap (senderPlatformId m) of
        None \<Rightarrow> resolved idMap msgs
      | Some i \<Rightarrow> (i, timestamp m, mtype m, content m) # resolved idMap msgs)"
  by (simp add: resolved_def List.map_filter_simps split: option.splits)

lemma resolved_Nil: "resolved idMap [] = []"
  by (simp add: resolved_def List.map_filter_simps)

lemma insertMessage_Inr:
  assumes "insertMessage i t ty c db = Inr db1"
  shows "tbl_member db1 = tbl_member db \<and> tbl_meta db1 = tbl_meta db
         \<and> map rowData (tbl_message db1) = map rowData (tbl_message db) @ [(i, t, ty, c)]"
proof -
  from assms have "db1 = db\<lparr>tbl_message := tbl_message db @
                  [\<lparr>msg_id = nextId (map msg_id (tbl_message db)), msg_sender_id = i,
                    msg_ts = t, msg_type = ty, msg_content = c\<rparr>]\<rparr>"
    by (simp add: insertMessage_def split: if_splits)
  then show ?thesis by (simp add: rowData_def)
qed

lemma importMessages_result:
  assumes "importMessages flt idMap msgs t = Inr t'"
  shows "tbl_member (tdb t') = tbl_member (tdb t) \<and> tbl_meta (tdb t') = tbl_meta (tdb t)
         \<and> map rowData (tbl_message (tdb t')) = map rowData (tbl_message (tdb t)) @ resolved idMap msgs"
  using assms
proof (induction msgs arbitrary: t)
  case Nil
  then show ?case by (simp add: resolved_Nil)
next
  case (Cons m msgs)
  show ?case
  proof (cases "idMap (senderPlatformId m)")
    case None
    with Cons.prems have "importMessages flt idMap msgs t = Inr t'" by simp
    from Cons.IH [OF this] None show ?thesis by (simp add: resolved_Cons)
  next
    case (Some i)
    with Cons.prems obtain t1 where
      s: "run flt (insertMessage i (timestamp m) (mtype m) (content m)) t = Inr t1"
      and rest: "importMessages flt idMap msgs t1 = Inr t'"
      by (auto split: sum.splits)
    from run_Inr [OF s] obtain db1 where
      db1: "insertMessage i (timestamp m) (mtype m) (content m) (tdb t) = Inr db1" "tdb t1 = db1"
      by auto
    then have t1: "tbl_member (tdb t1) = tbl_member (tdb t)" "tbl_meta (tdb t1) = tbl_meta (tdb t)"
      "map rowData (tbl_message (tdb t1))
         = map rowData (tbl_message (tdb t)) @ [(i, timestamp m, mtype m, content m)]"
      using insertMessage_Inr [OF db1(1)] by simp_all
    from Cons.IH [OF rest] t1 Some show ?thesis by (simp add: resolved_Cons)
  qed
qed

lemma importMessages_noFault:
  assumes "\<forall>n. \<not> flt n" "\<forall>p i. idMap p = Some i \<longrightarrow> i \<in> set (map m_id (tbl_member (tdb t)))"
  shows "\<exists>t'. importMessages flt idMap msgs t = Inr t'"
  using assms(2)
proof (induction msgs arbitrary: t)
  case Nil
  then show ?case by simp
next
  case (Cons m msgs)
  show ?case
  proof (cases "idMap (senderPlatformId m)")
    case None
    then show ?thesis using Cons.IH [OF Cons.prems] by simp
  next
    case (Some i)
    with Cons.prems have "i \<in> set (map m_id (tbl_member (tdb t)))" by blast
    then obtain db1 where db1: "insertMessage i (timestamp m) (mtype m) (content m) (tdb t) = Inr db1"
      "tbl_member db1 = tbl_member (tdb t)"
      by (simp add: insertMessage_def)
    then obtain t1 where s: "run flt (insertMessage i (timestamp m) (mtype m) (content m)) t = Inr t1"
      "tdb t1 = db1"
      using assms(1) by (simp add: run_noFault)
    have "\<forall>p i. idMap p = Some i \<longrightarrow> i \<in> set (map m_id (tbl_member (tdb t1)))"
      using Cons.prems s(2) db1(2) by simp
    from Cons.IH [OF this] obtain t' where "importMessages flt idMap msgs t1 = Inr t'" by blast
    then show ?thesis using Some s(1) by simp
  qed
qed

lemma find_unique:
  "distinct (map g xs) \<Longrightarrow> r \<in> set xs \<Longrightarrow> find (\<lambda>x. g x = g r) xs = Some r"
  by (induction xs) (auto simp: image_iff)

lemma resolved_senders:
  assumes "mapResolves idMap tbl" "distinct (map m_id tbl)"
  shows "map (\<lambda>d. (map_option m_platform_id (find (\<lambda>m. m_id m = fst d) tbl), snd d)) (resolved idMap msgs)
           = map (\<lambda>m. (Some (senderPlatformId m), timestamp m, mtype m, content m))
               (filter (\<lambda>m. senderPlatformId m \<in> dom idMap) msgs)"
proof (induction msgs)
  case Nil
  then show ?case by (simp add: resolved_Nil)
next
  case (Cons m msgs)
  show ?case
  proof (cases "idMap (senderPlatformId m)")
    case None
    then have "senderPlatformId m \<notin> dom idMap" by (simp add: domIff)
    with None Cons.IH show ?thesis by (simp add: resolved_Cons)
  next
    case (Some i)
    then obtain r where r: "r \<in> set tbl" "m_id r = i" "m_platform_id r = senderPlatformId m"
      using assms(1) by (auto simp: mapResolves_def)
    have "find (\<lambda>x. m_id x = m_id r) tbl = Some r"
      by (rule find_unique [OF assms(2) r(1)])
    with r have "map_option m_platform_id (find (\<lambda>x. m_id x = i) tbl) = Some (senderPlatformId m)"
      by simp
    moreover from Some have "senderPlatformId m \<in> dom idMap" by (simp add: domIff)
    ultimately show ?thesis using Some Cons.IH by (simp add: resolved_Cons)
  qed
qed

lemma resolved_ids:
  assumes "mapResolves idMap tbl"
  shows "fst ` set (resolved idMap msgs) \<subseteq> set (map m_id tbl)"
proof (induction msgs)
  case Nil
  then show ?case by (simp add: resolved_Nil)
next
  case (Cons m msgs)
  show ?case
  proof (cases "idMap (senderPlatformId m)")
    case None
    with Cons.IH show ?thesis by (simp add: resolved_Cons)
  next
    case (Some i)
    then have "i \<in> set (map m_id tbl)"
      using assms by (force simp: mapResolves_def)
    with Some Cons.IH show ?thesis by (simp add: resolved_Cons)
  qed
qed

subsection \<open>The transaction and the file\<close>

lemma importTransaction_result:
  assumes "importTransaction h pr db = Inr db'"
  shows "\<exists>idMap. tbl_meta db' = tbl_meta db @
                  [\<lparr>meta_name = name (meta pr), meta_platform = platform (meta pr),
                    meta_type = ctype (meta pr), imported_at = int (metaClock h div 1000)\<rparr>]
           \<and> tbl_member db' = fold memberStep (members pr) (tbl_member db)
           \<and> map rowData (tbl_message db') = map rowData (tbl_message db) @ resolved idMap (messages pr)
           \<and> dom idMap = set (map platformId (members pr))
           \<and> mapResolves idMap (tbl_member db')"
proof -
  from assms obtain t1 idMap t2 t3 t4 where
    s1: "run (fault h) (insertMeta (name (meta pr)) (platform (meta pr)) (ctype (meta pr))
            (int (metaClock h div 1000))) \<lparr>tdb = db, stmts = 0\<rparr> = Inr t1"
    and s2: "importMembers (fault h) (members pr) Map.empty t1 = Inr (idMap, t2)"
    and s3: "importMessages (fault h) idMap (messages pr) t2 = Inr t3"
    and s4: "run (fault h) Inr t3 = Inr t4" and d: "db' = tdb t4"
    unfolding importTransaction_def by (auto split: sum.splits prod.splits)
  from run_Inr [OF s1] have t1: "tdb t1 = db\<lparr>tbl_meta := tbl_meta db @
                  [\<lparr>meta_name = name (meta pr), meta_platform = platform (meta pr),
                    meta_type = ctype (meta pr), imported_at = int (metaClock h div 1000)\<rparr>]\<rparr>"
    by (auto simp: insertMeta_def)
  have e: "mapResolves Map.empty (tbl_member (tdb t1))"
    by (simp add: mapResolves_def)
  from importMembers_result [OF s2] e
  have t2: "tdb t2 = (tdb t1)\<lparr>tbl_member := fold memberStep (members pr) (tbl_member (tdb t1))\<rparr>"
    and dm: "dom idMap = set (map platformId (members pr))"
    and mr: "mapResolves idMap (tbl_member (tdb t2))"
    by auto
  note t3 = importMessages_result [OF s3]
  from run_Inr [OF s4] have t4: "tdb t4 = tdb t3" by auto
  show ?thesis
    using t1 t2 t3 t4 dm mr d by (intro exI [of _ idMap]) simp
qed

lemma importTransaction_noFault:
  assumes "\<forall>n. \<not> fault h n"
  shows "\<exists>db'. importTransaction h pr db = Inr db'"
proof -
  obtain t1 where s1: "run (fault h) (insertMeta (name (meta pr)) (platform (meta pr)) (ctype (meta pr))
            (int (metaClock h div 1000))) \<lparr>tdb = db, stmts = 0\<rparr> = Inr t1"
    using assms by (simp add: run_noFault insertMeta_def)
  obtain idMap t2 where s2: "importMembers (fault h) (members pr) Map.empty t1 = Inr (idMap, t2)"
    using importMembers_noFault [OF assms, of "members pr" Map.empty t1] by auto
  have "mapResolves Map.empty (tbl_member (tdb t1))"
    by (simp add: mapResolves_def)
  with importMembers_result [OF s2] have "mapResolves idMap (tbl_member (tdb t2))" by blast
  then have "\<forall>p i. idMap p = Some i \<longrightarrow> i \<in> set (map m_id (tbl_member (tdb t2)))"
    by (force simp: mapResolves_def)
  from importMessages_noFault [OF assms this]
  obtain t3 where s3: "importMessages (fault h) idMap (messages pr) t2 = Inr t3" by blast
  obtain t4 where s4: "run (fault h) Inr t3 = Inr t4"
    using assms by (simp add: run_noFault)
  show ?thesis
    by (simp add: importTransaction_def s1 s2 s3 s4)
qed

lemma importData_fresh:
  assumes "\<not> existsSync fs (getDbPath (generateSessionId h))"
  shows "importData h pr fs =
           (case importTransaction h pr emptyTables of
              Inl e \<Rightarrow> (writeFile fs (getDbPath (generateSessionId h)) (ChatDb emptyTables), Inl e)
            | Inr db' \<Rightarrow>
                (writeFile (writeFile fs (getDbPath (generateSessionId h)) (ChatDb emptyTables))
                   (getDbPath (generateSessionId h)) (ChatDb db'),
                 Inr (generateSessionId h)))"
  using assms
  by (simp add: importData_def createDatabase_def existsSync_def Let_def split: sum.splits)

lemma importData_success:
  assumes "\<not> existsSync fs (getDbPath (generateSessionId h))" "\<forall>n. \<not> fault h n"
  shows "\<exists>fs' db' idMap.
           importData h pr fs = (fs', Inr (generateSessionId h))
         \<and> map_of fs' (getDbPath (generateSessionId h)) = Some \<lparr>body = ChatDb db', locked = False\<rparr>
         \<and> tbl_member db' = fold memberStep (members pr) []
         \<and> map rowData (tbl_message db') = resolved idMap (messages pr)
         \<and> dom idMap = set (map platformId (members pr))
         \<and> mapResolves idMap (tbl_member db')"
proof -
  obtain db' where t: "importTransaction h pr emptyTables = Inr db'"
    using importTransaction_noFault [OF assms(2)] by blast
  from importTransaction_result [OF t] obtain idMap where
    r: "tbl_member db' = fold memberStep (members pr) []"
       "map rowData (tbl_message db') = resolved idMap (messages pr)"
       "dom idMap = set (map platformId (members pr))"
       "mapResolves idMap (tbl_member db')"
    by (auto simp: emptyTables_def)
  have none: "map_of fs (getDbPath (generateSessionId h)) = None"
    using assms(1) by (simp add: existsSync_def)
  have "map_of (writeFile (writeFile fs (getDbPath (generateSessionId h)) (ChatDb emptyTables))
                   (getDbPath (generateSessionId h)) (ChatDb db')) (getDbPath (generateSessionId h))
          = Some \<lparr>body = ChatDb db', locked = False\<rparr>"
    by (simp add: map_of_writeFile none)
  moreover have "importData h pr fs =
      (writeFile (writeFile fs (getDbPath (generateSessionId h)) (ChatDb emptyTables))
         (getDbPath (generateSessionId h)) (ChatDb db'), Inr (generateSessionId h))"
    by (simp add: importData_fresh [OF assms(1)] t)
  ultimately show ?thesis
    using r by blast
qed

subsection \<open>The example import\<close>

lemma example_sessionId: "generateSessionId exampleHost = exampleId"
  by (simp add: generateSessionId_def exampleHost_def exampleId_def toDecimal.simps)

lemma faulty_sessionId: "generateSessionId faultyHost = exampleId"
  by (simp add: generateSessionId_def faultyHost_def exampleId_def toDecimal.simps)

lemma example_fresh: "\<not> existsSync [] (getDbPath (generateSessionId exampleHost))"
  by (simp add: existsSync_def)

lemma example_noFault: "\<forall>n. \<not> fault exampleHost n"
  by (simp add: exampleHost_def neverFaults_def)

lemma faulty_transaction: "importTransaction faultyHost exampleParse emptyTables = Inl SqliteError"
  by (simp add: importTransaction_def faultyHost_def exampleParse_def emptyTables_def run_def
        faultsAtFifth_def insertMeta_def insertMember_def updateMemberName_def getMemberId_def nextId_def)

text \<open>The fault-free import of the example into an empty directory stores \<open>exampleDb\<close>.\<close>

lemma example_transaction: "importTransaction exampleHost exampleParse emptyTables = Inr exampleDb"
  by (simp add: importTransaction_def exampleHost_def exampleParse_def emptyTables_def run_def
        neverFaults_def insertMeta_def insertMember_def updateMemberName_def getMemberId_def
        insertMessage_def nextId_def exampleDb_def)

lemma example_import:
  "importData exampleHost exampleParse [] = ([(getDbPath exampleId, exampleNode)], Inr exampleId)"
  using importData_fresh [OF example_fresh, of exampleParse]
  by (simp add: example_transaction example_sessionId writeFile_def exampleNode_def)


text \<open>
  C5. When the session id is new to the directory and the write transaction of
  \<open>importData\<close> fails, the importer returns the failure and no session id, the file it
  created holds the empty tables it held before the transaction began, the session is
  not among those \<open>getAllSessions\<close> returns, and \<open>getSession\<close> returns \<open>null\<close> for it.
\<close>

theorem importData_atomic:
  assumes "\<not> existsSync fs (getDbPath (generateSessionId h))"
    "importTransaction h pr emptyTables = Inl e"
  shows "importData h pr fs
           = (writeFile fs (getDbPath (generateSessionId h)) (ChatDb emptyTables), Inl e)
         \<and> generateSessionId h \<notin> s_id ` set (snd (getAllSessions (fst (importData h pr fs))))
         \<and> getSession (fst (importData h pr fs)) (generateSessionId h) = Inr None"
proof -
  let ?sid = "generateSessionId h"
  let ?fs' = "writeFile fs (getDbPath ?sid) (ChatDb emptyTables)"
  have i: "importData h pr fs = (?fs', Inl e)"
    by (simp add: importData_fresh [OF assms(1)] assms(2))
  have none: "map_of fs (getDbPath ?sid) = None"
    using assms(1) by (simp add: existsSync_def)
  have f: "map_of ?fs' (getDbPath ?sid) = Some \<lparr>body = ChatDb emptyTables, locked = False\<rparr>"
    by (simp add: map_of_writeFile none)
  have "?sid \<notin> s_id ` set (snd (getAllSessions ?fs'))"
  proof
    assume "?sid \<in> s_id ` set (snd (getAllSessions ?fs'))"
    then obtain s where "s \<in> set (snd (getAllSessions ?fs'))" "s_id s = ?sid" by auto
    then have "listed ?fs' s" "s_id s = ?sid" by (auto dest: getAllSessions_listed)
    then show False using f by (simp add: listed_def readSession_def emptyTables_def)
  qed
  moreover have "getSession ?fs' ?sid = Inr None"
    using f by (simp add: getSession_def openDatabase_def tablesOf_def readSession_def emptyTables_def)
  ultimately show ?thesis using i by simp
qed

theorem importData_atomic_witness:
  "\<not> existsSync [] (getDbPath (generateSessionId faultyHost))
   \<and> importTransaction faultyHost exampleParse emptyTables = Inl SqliteError
   \<and> importData faultyHost exampleParse []
       = (writeFile [] (getDbPath (generateSessionId faultyHost)) (ChatDb emptyTables),
          Inl SqliteError)
   \<and> generateSessionId faultyHost
       \<notin> s_id ` set (snd (getAllSessions (fst (importData faultyHost exampleParse []))))
   \<and> getSession (fst (importData faultyHost exampleParse [])) (generateSessionId faultyHost)
       = Inr None"
proof -
  have f: "\<not> existsSync [] (getDbPath (generateSessionId faultyHost))"
    by (simp add: existsSync_def)
  show ?thesis
    using importData_atomic [OF f faulty_transaction] f faulty_transaction by blast
qed

text \<open>
  C6. When the session id is new to the directory and the storage does not fault, the
  import returns the session id whatever the messages are. The stored messages are, in
  order, the messages of the parse result whose sender's platform id is in its member
  list; the others are not stored. The sender id of every stored message names a member
  row of the session, the one with the message's sender platform id, and the member
  table obeys its keys.
\<close>

theorem importData_drops_unresolved:
  assumes "\<not> existsSync fs (getDbPath (generateSessionId h))" "\<forall>n. \<not> fault h n"
  shows "\<exists>fs' db'.
           importData h pr fs = (fs', Inr (generateSessionId h))
         \<and> map_of fs' (getDbPath (generateSessionId h)) = Some \<lparr>body = ChatDb db', locked = False\<rparr>
         \<and> map (\<lambda>r. (senderPlatformOf db' r, msg_ts r, msg_type r, msg_content r)) (tbl_message db')
             = map (\<lambda>m. (Some (senderPlatformId m), timestamp m, mtype m, content m))
                 (filter (\<lambda>m. senderPlatformId m \<in> set (map platformId (members pr))) (messages pr))
         \<and> senderResolved db' \<and> memberKeys db'"
proof -
  from importData_success [OF assms, of pr] obtain fs' db' idMap where
    i: "importData h pr fs = (fs', Inr (generateSessionId h))"
    and f: "map_of fs' (getDbPath (generateSessionId h)) = Some \<lparr>body = ChatDb db', locked = False\<rparr>"
    and m: "tbl_member db' = fold memberStep (members pr) []"
    and r: "map rowData (tbl_message db') = resolved idMap (messages pr)"
    and d: "dom idMap = set (map platformId (members pr))"
    and mr: "mapResolves idMap (tbl_member db')"
    by blast
  have k: "tableKeys (tbl_member db')"
    unfolding m by (rule imported_keys)
  then have keys: "memberKeys db'"
    by (simp add: memberKeys_def tableKeys_def)
  have "map (\<lambda>r. (senderPlatformOf db' r, msg_ts r, msg_type r, msg_content r)) (tbl_message db')
        = map (\<lambda>d. (map_option m_platform_id (find (\<lambda>m. m_id m = fst d) (tbl_member db')), snd d))
            (map rowData (tbl_message db'))"
    by (simp add: senderPlatformOf_def rowData_def)
  also have "\<dots> = map (\<lambda>m. (Some (senderPlatformId m), timestamp m, mtype m, content m))
               (filter (\<lambda>m. senderPlatformId m \<in> dom idMap) (messages pr))"
    unfolding r using k by (intro resolved_senders [OF mr]) (simp add: tableKeys_def)
  finally have stored:
    "map (\<lambda>r. (senderPlatformOf db' r, msg_ts r, msg_type r, msg_content r)) (tbl_message db')
        = map (\<lambda>m. (Some (senderPlatformId m), timestamp m, mtype m, content m))
            (filter (\<lambda>m. senderPlatformId m \<in> set (map platformId (members pr))) (messages pr))"
    by (simp only: d)
  have "set (map msg_sender_id (tbl_message db')) = fst ` set (map rowData (tbl_message db'))"
    by (force simp: rowData_def)
  also have "\<dots> \<subseteq> set (map m_id (tbl_member db'))"
    unfolding r by (rule resolved_ids [OF mr])
  finally have "senderResolved db'"
    by (auto simp: senderResolved_def list_all_iff)
  with i f stored keys show ?thesis by blast
qed

theorem importData_drops_unresolved_witness:
  "\<not> existsSync [] (getDbPath (generateSessionId exampleHost))
   \<and> (\<forall>n. \<not> fault exampleHost n)
   \<and> (\<exists>fs' db'.
         importData exampleHost exampleParse [] = (fs', Inr (generateSessionId exampleHost))
       \<and> map_of fs' (getDbPath (generateSessionId exampleHost))
           = Some \<lparr>body = ChatDb db', locked = False\<rparr>
       \<and> map (\<lambda>r. (senderPlatformOf db' r, msg_ts r, msg_type r, msg_content r)) (tbl_message db')
           = [(Some ''u1'', 1700038800, 0, Some ''hi''), (Some ''sys'', 1700038860, 6, None),
              (Some ''u2'', 1700056800, 1, None), (Some ''u1'', 1700056860, 0, Some ''ok'')]
       \<and> senderResolved db' \<and> memberKeys db')"
  using importData_drops_unresolved [OF example_fresh example_noFault, of exampleParse]
    example_fresh example_noFault
  by (simp add: exampleParse_def)

text \<open>
  C8. When the session id is new to the directory and the storage does not fault, the
  member table of the imported session holds exactly one row for each platform id of the
  parse result's member list, however often the list names it, and the row's name is the
  name of the last entry of the list with that platform id.
\<close>

theorem importData_latest_name:
  assumes "\<not> existsSync fs (getDbPath (generateSessionId h))" "\<forall>n. \<not> fault h n"
  shows "\<exists>fs' db'.
           importData h pr fs = (fs', Inr (generateSessionId h))
         \<and> map_of fs' (getDbPath (generateSessionId h)) = Some \<lparr>body = ChatDb db', locked = False\<rparr>
         \<and> set (map m_platform_id (tbl_member db')) = set (map platformId (members pr))
         \<and> (\<forall>p\<in>set (map platformId (members pr)).
               length (filter (\<lambda>r. m_platform_id r = p) (tbl_member db')) = 1
             \<and> (\<forall>r\<in>set (tbl_member db'). m_platform_id r = p \<longrightarrow>
                   m_name r = pname (last (filter (\<lambda>m. platformId m = p) (members pr)))))"
proof -
  from importData_success [OF assms, of pr] obtain fs' db' idMap where
    i: "importData h pr fs = (fs', Inr (generateSessionId h))"
    and f: "map_of fs' (getDbPath (generateSessionId h)) = Some \<lparr>body = ChatDb db', locked = False\<rparr>"
    and m: "tbl_member db' = fold memberStep (members pr) []"
    by blast
  have k: "distinct (map m_platform_id (tbl_member db'))"
    unfolding m using imported_keys [of "members pr"] by (simp add: tableKeys_def)
  have s: "set (map m_platform_id (tbl_member db')) = set (map platformId (members pr))"
    unfolding m by (simp only: fold_memberStep_pids) simp
  have one: "length (filter (\<lambda>r. m_platform_id r = p) (tbl_member db')) = 1"
    if "p \<in> set (map platformId (members pr))" for p
    using that s by (intro exactly_one [OF k]) simp
  have nm: "m_name r = pname (last (filter (\<lambda>m. platformId m = p) (members pr)))"
    if "p \<in> set (map platformId (members pr))" "r \<in> set (tbl_member db')" "m_platform_id r = p" for p r
    using that fold_memberStep_names [of r "members pr" "[]"] unfolding m by auto
  show ?thesis using i f s one nm by blast
qed

theorem importData_latest_name_witness:
  "\<not> existsSync [] (getDbPath (generateSessionId exampleHost))
   \<and> (\<forall>n. \<not> fault exampleHost n)
   \<and> (\<exists>fs' db'.
         importData exampleHost exampleParse [] = (fs', Inr (generateSessionId exampleHost))
       \<and> map_of fs' (getDbPath (generateSessionId exampleHost))
           = Some \<lparr>body = ChatDb db', locked = False\<rparr>
       \<and> set (map m_platform_id (tbl_member db')) = {''u1'', ''sys'', ''u2''}
       \<and> length (filter (\<lambda>r. m_platform_id r = ''u1'') (tbl_member db')) = 1
       \<and> (\<forall>r\<in>set (tbl_member db'). m_platform_id r = ''u1'' \<longrightarrow> m_name r = ''Alicia''))"
proof -
  from importData_latest_name [OF example_fresh example_noFault, of exampleParse]
  obtain fs' db' where
    i: "importData exampleHost exampleParse [] = (fs', Inr (generateSessionId exampleHost))"
    and f: "map_of fs' (getDbPath (generateSessionId exampleHost))
              = Some \<lparr>body = ChatDb db', locked = False\<rparr>"
    and s: "set (map m_platform_id (tbl_member db')) = set (map platformId (members exampleParse))"
    and a: "\<forall>p\<in>set (map platformId (members exampleParse)).
               length (filter (\<lambda>r. m_platform_id r = p) (tbl_member db')) = 1
             \<and> (\<forall>r\<in>set (tbl_member db'). m_platform_id r = p \<longrightarrow>
                   m_name r = pname (last (filter (\<lambda>m. platformId m = p) (members exampleParse))))"
    by blast
  have u: "''u1'' \<in> set (map platformId (members exampleParse))"
    by (simp add: exampleParse_def)
  have l: "pname (last (filter (\<lambda>m. platformId m = ''u1'') (members exampleParse))) = ''Alicia''"
    by (simp add: exampleParse_def)
  have s': "set (map m_platform_id (tbl_member db')) = {''u1'', ''sys'', ''u2''}"
    unfolding s by (auto simp: exampleParse_def)
  from bspec [OF a u]
  have "length (filter (\<lambda>r. m_platform_id r = ''u1'') (tbl_member db')) = 1
       \<and> (\<forall>r\<in>set (tbl_member db'). m_platform_id r = ''u1'' \<longrightarrow> m_name r = ''Alicia'')"
    unfolding l .
  with i f s' example_fresh example_noFault show ?thesis by blast
qed

end
